theory Spec2Isabelle
  imports Main "HOL-Library.Word"
begin

unbundle bit_operations_syntax

section \<open>CRC engine (crc16.h)\<close>

text \<open>
  Modelled from the spec: the bodies of \<open>crc16_add\<close> and \<open>crc16\<close> (crc16.c) are not
  part of the sources; crc16.h declares them and documents the algorithm: CRC-16/CCITT,
  polynomial 0x1021, initial value supplied by the caller, no input or output
  reflection, no final XOR.  One step shifts the input byte into the high half of the
  register and performs eight shift-and-conditionally-subtract rounds.
\<close>

definition crc16_round :: "16 word \<Rightarrow> 16 word" where
  "crc16_round c = (if bit c 15 then push_bit 1 c XOR 0x1021 else push_bit 1 c)"

definition crc16_add :: "16 word \<Rightarrow> 8 word \<Rightarrow> 16 word" where
  "crc16_add crc byte = (crc16_round ^^ 8) (crc XOR push_bit 8 (ucast byte))"

text \<open>
  Modelled from the spec: \<open>crc16(data, length)\<close> is documented as a wrapper around
  \<open>crc16_add\<close> that starts from 0 and returns 0 for \<open>length = 0\<close>.  It is written as the
  counting loop of a C block function: \<open>i\<close> runs from 0 up to \<open>length\<close> and each round
  feeds \<open>data[i]\<close> to \<open>crc16_add\<close>.  The loop reads only indices below \<open>length\<close>; the
  caller owns a buffer of at least that many bytes.
\<close>

function crc16_loop :: "8 word list \<Rightarrow> nat \<Rightarrow> nat \<Rightarrow> 16 word \<Rightarrow> 16 word" where
  "crc16_loop data len i crc =
     (if i < len then crc16_loop data len (Suc i) (crc16_add crc (data ! i)) else crc)"
  by pat_completeness auto
termination
  by (relation "measure (\<lambda>(data, len, i, crc). len - i)") auto

declare crc16_loop.simps [simp del]

definition crc16 :: "8 word list \<Rightarrow> nat \<Rightarrow> 16 word" where
  "crc16 data len = crc16_loop data len 0 0"

section \<open>Frame codec (uframe.h)\<close>

text \<open>The marker bytes and the buffer capacity are macros of uframe.h.\<close>

definition uf_SOF :: "8 word" where "uf_SOF = 0x7e"
definition uf_DLE :: "8 word" where "uf_DLE = 0x7d"
definition uf_XOR :: "8 word" where "uf_XOR = 0x20"
definition uf_EOF :: "8 word" where "uf_EOF = 0x7f"

definition MAX_FRAME_LENGTH :: nat where "MAX_FRAME_LENGTH = 128"

definition FRAME_OVERHEAD :: "nat \<Rightarrow> nat" where
  "FRAME_OVERHEAD sz = 1 + 2 * sz + 4 + 1"

datatype uframe_error = E_LEN | E_FRM | E_CRC

text \<open>
  The struct \<open>frame_t\<close> of uframe.h.  \<open>buffer\<close> is the array of \<open>MAX_FRAME_LENGTH\<close>
  bytes, \<open>flength\<close> the field \<open>length\<close>.  The two 32-bit counters never leave the range
  \<open>0..128\<close> in the operations below and are natural numbers.
\<close>

record frame_t =
  buffer :: "8 word list"
  flength :: nat
  crc :: "16 word"
  unpack_pos :: nat

definition frame_ok :: "frame_t \<Rightarrow> bool" where
  "frame_ok f = (length (buffer f) = MAX_FRAME_LENGTH \<and> flength f \<le> MAX_FRAME_LENGTH)"

definition wire_bytes :: "frame_t \<Rightarrow> 8 word list" where
  "wire_bytes f = take (flength f) (buffer f)"

text \<open>
  Modelled from the spec: the bodies of the frame building functions (uframe.c) are
  not part of the sources; uframe.h declares them as \<open>void\<close> functions on a \<open>frame_t\<close>.
  \<open>stuff8\<close> adds one raw byte.  The buffer holds \<open>MAX_FRAME_LENGTH\<close> bytes and the
  functions have no way to report a failure, so the model keeps every write inside the
  array: a byte that finds the buffer full is not stored.
\<close>

definition stuff8 :: "frame_t \<Rightarrow> 8 word \<Rightarrow> frame_t" where
  "stuff8 frame d =
     (if flength frame < MAX_FRAME_LENGTH
      then frame\<lparr>buffer := (buffer frame)[flength frame := d], flength := flength frame + 1\<rparr>
      else frame)"

text \<open>
  Modelled from the spec: a byte equal to SOF, EOF or DLE is written as DLE followed
  by the byte XOR 0x20, every other byte as it is.
\<close>

definition needs_escape :: "8 word \<Rightarrow> bool" where
  "needs_escape d = (d = uf_SOF \<or> d = uf_DLE \<or> d = uf_EOF)"

definition stuff_escaped :: "frame_t \<Rightarrow> 8 word \<Rightarrow> frame_t" where
  "stuff_escaped frame d =
     (if needs_escape d then stuff8 (stuff8 frame uf_DLE) (d XOR uf_XOR) else stuff8 frame d)"

text \<open>
  Modelled from the spec: \<open>set_frame_header\<close> writes SOF, resets the running CRC to 0
  and the length to 1; \<open>pack8\<close> updates the running CRC with the byte and writes the
  byte with escaping; \<open>end_frame\<close> appends the two CRC bytes, high byte first and
  escaped, and the EOF marker.
\<close>

definition set_frame_header :: "frame_t \<Rightarrow> frame_t" where
  "set_frame_header frame = frame\<lparr>buffer := (buffer frame)[0 := uf_SOF], flength := 1, crc := 0\<rparr>"

definition pack8 :: "frame_t \<Rightarrow> 8 word \<Rightarrow> frame_t" where
  "pack8 frame d = stuff_escaped (frame\<lparr>crc := crc16_add (crc frame) d\<rparr>) d"

definition crc_hi :: "16 word \<Rightarrow> 8 word" where
  "crc_hi c = ucast (drop_bit 8 c)"

definition crc_lo :: "16 word \<Rightarrow> 8 word" where
  "crc_lo c = ucast c"

definition end_frame :: "frame_t \<Rightarrow> frame_t" where
  "end_frame frame =
     stuff8 (stuff_escaped (stuff_escaped frame (crc_hi (crc frame))) (crc_lo (crc frame))) uf_EOF"

text \<open>
  Modelled from the spec: multi-byte values are packed most significant byte first; a
  C string is packed with its terminating NUL.
\<close>

definition pack16 :: "frame_t \<Rightarrow> 16 word \<Rightarrow> frame_t" where
  "pack16 frame d = pack8 (pack8 frame (ucast (drop_bit 8 d))) (ucast d)"

definition pack_cstr :: "frame_t \<Rightarrow> 8 word list \<Rightarrow> frame_t" where
  "pack_cstr frame s = pack8 (foldl pack8 frame s) 0"

text \<open>
  The build sequence of the header comment: \<open>set_frame_header\<close>, one \<open>pack8\<close> for each
  payload byte, \<open>end_frame\<close>.
\<close>

definition build_frame :: "frame_t \<Rightarrow> 8 word list \<Rightarrow> frame_t" where
  "build_frame frame p = end_frame (foldl pack8 (set_frame_header frame) p)"

subsection \<open>Parsing\<close>

text \<open>
  Modelled from the spec: the body of \<open>uframe_extract_payload\<close> (uframe.c) is not part
  of the sources.  It locates the first SOF and the last EOF of the \<open>length\<close> raw bytes
  and answers \<open>E_FRM\<close> when one is absent or they are out of order; it un-escapes the
  span between them and answers \<open>E_LEN\<close> when the un-escaped span has no room for the
  two CRC bytes or does not fit the frame buffer; it takes the last two un-escaped
  bytes as the claimed CRC, high byte first, recomputes the CRC over the bytes before
  them and answers \<open>E_CRC\<close> on a mismatch.  On success the payload is copied to the
  start of the frame buffer, \<open>length\<close> is the payload length and the read cursor is 0.
  A DLE that ends the span escapes nothing and is skipped.  \<open>unescape\<close> removes the
  escaping, \<open>index_of_first\<close> and \<open>index_of_last\<close> find the markers.
\<close>

fun unescape :: "8 word list \<Rightarrow> 8 word list" where
  "unescape [] = []"
| "unescape [b] = (if b = uf_DLE then [] else [b])"
| "unescape (b # c # cs) =
     (if b = uf_DLE then (c XOR uf_XOR) # unescape cs else b # unescape (c # cs))"

fun index_of_first :: "8 word \<Rightarrow> 8 word list \<Rightarrow> nat option" where
  "index_of_first x [] = None"
| "index_of_first x (y # ys) =
     (if x = y then Some 0 else map_option Suc (index_of_first x ys))"

definition index_of_last :: "8 word \<Rightarrow> 8 word list \<Rightarrow> nat option" where
  "index_of_last x xs = map_option (\<lambda>i. length xs - 1 - i) (index_of_first x (rev xs))"

definition uframe_extract_payload ::
  "frame_t \<Rightarrow> 8 word list \<Rightarrow> nat \<Rightarrow> uframe_error + frame_t" where
  "uframe_extract_payload frame data len =
     (let raw = take len data in
      case index_of_first uf_SOF raw of
        None \<Rightarrow> Inl E_FRM
      | Some sof \<Rightarrow>
         (case index_of_last uf_EOF raw of
            None \<Rightarrow> Inl E_FRM
          | Some eof \<Rightarrow>
             if eof < sof then Inl E_FRM
             else
               let un = unescape (take (eof - sof - 1) (drop (sof + 1) raw));
                   n = length un
               in if n < 2 then Inl E_LEN
                  else if MAX_FRAME_LENGTH < n then Inl E_LEN
                  else
                    let payload = take (n - 2) un;
                        claimed = push_bit 8 (ucast (un ! (n - 2))) OR ucast (un ! (n - 1))
                    in if crc16 payload (n - 2) \<noteq> claimed then Inl E_CRC
                       else Inr (frame\<lparr>buffer := payload @ drop (n - 2) (buffer frame),
                                        flength := n - 2, unpack_pos := 0\<rparr>)))"

text \<open>The payload a parsed frame holds: the first \<open>length\<close> bytes of its buffer.\<close>

definition payload_of :: "frame_t \<Rightarrow> 8 word list" where
  "payload_of f = take (flength f) (buffer f)"

text \<open>
  Modelled from the spec: the read functions (uframe.c) are not part of the sources.
  They read big-endian values at the cursor, advance the cursor and report the number
  of payload bytes left.  They do not check the cursor against the payload length; a
  read inside the buffer returns the byte stored there.  The model is total: a position
  outside the buffer reads as 0.
\<close>

definition byte_at :: "frame_t \<Rightarrow> nat \<Rightarrow> 8 word" where
  "byte_at f i = (if i < length (buffer f) then buffer f ! i else 0)"

definition start_frame_unpacking :: "frame_t \<Rightarrow> frame_t" where
  "start_frame_unpacking frame = frame\<lparr>unpack_pos := 0\<rparr>"

definition unpack8 :: "frame_t \<Rightarrow> 8 word \<times> nat \<times> frame_t" where
  "unpack8 frame =
     (let pos = unpack_pos frame
      in (byte_at frame pos, flength frame - (pos + 1), frame\<lparr>unpack_pos := pos + 1\<rparr>))"

definition unpack16 :: "frame_t \<Rightarrow> 16 word \<times> nat \<times> frame_t" where
  "unpack16 frame =
     (let pos = unpack_pos frame
      in (push_bit 8 (ucast (byte_at frame pos)) OR ucast (byte_at frame (pos + 1)),
          flength frame - (pos + 2), frame\<lparr>unpack_pos := pos + 2\<rparr>))"

subsection \<open>The wire format as the specification words it\<close>

text \<open>
  The wire form of a payload: SOF, the escaped payload, the escaped CRC of the
  un-escaped payload (high byte, low byte), EOF.  These definitions follow the
  specification's description of the format and are compared with what the building
  functions leave in the buffer.
\<close>

definition esc1 :: "8 word \<Rightarrow> 8 word list" where
  "esc1 d = (if needs_escape d then [uf_DLE, d XOR uf_XOR] else [d])"

definition escape :: "8 word list \<Rightarrow> 8 word list" where
  "escape bs = concat (map esc1 bs)"

definition frame_crc :: "8 word list \<Rightarrow> 16 word" where
  "frame_crc p = foldl crc16_add 0 p"

definition wire_form :: "8 word list \<Rightarrow> 8 word list" where
  "wire_form p =
     uf_SOF # escape p @ escape [crc_hi (frame_crc p), crc_lo (frame_crc p)] @ [uf_EOF]"

text \<open>Extraction followed by reading the payload out of the parsed frame.\<close>

definition extracted_payload ::
  "frame_t \<Rightarrow> 8 word list \<Rightarrow> nat \<Rightarrow> uframe_error + 8 word list" where
  "extracted_payload g data len =
     (case uframe_extract_payload g data len of
        Inl e \<Rightarrow> Inl e
      | Inr f \<Rightarrow> Inr (payload_of f))"

text \<open>A frame variable whose buffer is zeroed, used as a concrete starting state.\<close>

definition empty_frame :: frame_t where
  "empty_frame = \<lparr>buffer = replicate MAX_FRAME_LENGTH 0, flength = 0, crc = 0, unpack_pos = 0\<rparr>"

section \<open>Command layer (protocol.h)\<close>

text \<open>The enumeration \<open>command_t\<close>; enumerators count up from \<open>cmd_ping = 1\<close>.\<close>

datatype command_t =
    cmd_ping
  | obsolete_cmd_set_vout
  | obsolete_cmd_set_ilimit
  | cmd_query
  | obsolete_cmd_power_enable
  | cmd_wifi_status
  | cmd_lock
  | cmd_ocp_event
  | cmd_upgrade_start
  | cmd_upgrade_data
  | cmd_set_function
  | cmd_enable_output
  | cmd_list_functions
  | cmd_set_parameters
  | cmd_list_parameters
  | cmd_temperature_report
  | cmd_version
  | cmd_cal_report
  | cmd_set_calibration
  | cmd_clear_calibration
  | cmd_change_screen
  | cmd_set_brightness
  | cmd_response

fun cmd_code :: "command_t \<Rightarrow> 8 word" where
  "cmd_code cmd_ping = 1"
| "cmd_code obsolete_cmd_set_vout = 2"
| "cmd_code obsolete_cmd_set_ilimit = 3"
| "cmd_code cmd_query = 4"
| "cmd_code obsolete_cmd_power_enable = 5"
| "cmd_code cmd_wifi_status = 6"
| "cmd_code cmd_lock = 7"
| "cmd_code cmd_ocp_event = 8"
| "cmd_code cmd_upgrade_start = 9"
| "cmd_code cmd_upgrade_data = 10"
| "cmd_code cmd_set_function = 11"
| "cmd_code cmd_enable_output = 12"
| "cmd_code cmd_list_functions = 13"
| "cmd_code cmd_set_parameters = 14"
| "cmd_code cmd_list_parameters = 15"
| "cmd_code cmd_temperature_report = 16"
| "cmd_code cmd_version = 17"
| "cmd_code cmd_cal_report = 18"
| "cmd_code cmd_set_calibration = 19"
| "cmd_code cmd_clear_calibration = 20"
| "cmd_code cmd_change_screen = 21"
| "cmd_code cmd_set_brightness = 22"
| "cmd_code cmd_response = 0x80"

text \<open>
  Modelled from the spec: the body of \<open>protocol_create_ocp\<close> (protocol.c) is not part
  of the sources.  protocol.h documents the frame as
  \<^verbatim>\<open>[cmd_ocp_event] [I_cut(7:0)] [I_cut(15:8)]\<close> and the specification as a 16-bit current
  with the low byte first.
\<close>

definition protocol_create_ocp :: "frame_t \<Rightarrow> 16 word \<Rightarrow> frame_t" where
  "protocol_create_ocp frame i_cut =
     end_frame
       (pack8 (pack8 (pack8 (set_frame_header frame) (cmd_code cmd_ocp_event))
          (ucast i_cut)) (ucast (drop_bit 8 i_cut)))"

text \<open>
  Modelled from the spec: the body of \<open>protocol_create_query_response\<close> (protocol.c)
  is not part of the sources.  protocol.h documents the frame as
  \<^verbatim>\<open>[cmd_response | cmd_query] [1] [V_in(15:8)] [V_in(7:0)] [V_out_setting(15:8)]
  [V_out_setting(7:0)] [V_out(15:8)] [V_out(7:0)] [I_out(15:8)] [I_out(7:0)] [I_limit(15:8)]
  [I_limit(7:0)] [<power enable>]\<close>.
\<close>

definition protocol_create_query_response ::
  "frame_t \<Rightarrow> 16 word \<Rightarrow> 16 word \<Rightarrow> 16 word \<Rightarrow> 16 word \<Rightarrow> 16 word \<Rightarrow> 8 word \<Rightarrow> frame_t" where
  "protocol_create_query_response frame v_in v_out_setting v_out i_out i_limit power_enabled =
     end_frame
       (pack8
          (pack16 (pack16 (pack16 (pack16 (pack16
             (pack8 (pack8 (set_frame_header frame) (cmd_code cmd_response OR cmd_code cmd_query)) 1)
             v_in) v_out_setting) v_out) i_out) i_limit)
          power_enabled)"

section \<open>Bootloader hand-off (bootcom.h)\<close>

text \<open>
  Modelled from the spec: the bodies of \<open>bootcom_put\<close> and \<open>bootcom_get\<close> (bootcom.c)
  are not part of the sources.  bootcom.h describes a shared RAM buffer that holds a
  magic word marking valid data and two 32-bit data words.  \<open>magic_present\<close> says
  whether the magic word is in place.  \<open>bootcom_put\<close> stores both words and sets the
  magic word; \<open>bootcom_get\<close> checks the magic word, and when it is present returns
  \<open>true\<close> with both words and clears the buffer, otherwise returns \<open>false\<close> and leaves
  the buffer alone.
\<close>

record bootcom_t =
  magic_present :: bool
  word1 :: "32 word"
  word2 :: "32 word"

definition bootcom_put :: "32 word \<Rightarrow> 32 word \<Rightarrow> bootcom_t \<Rightarrow> bootcom_t" where
  "bootcom_put w1 w2 b = \<lparr>magic_present = True, word1 = w1, word2 = w2\<rparr>"

definition bootcom_get :: "bootcom_t \<Rightarrow> (32 word \<times> 32 word) option \<times> bootcom_t" where
  "bootcom_get b =
     (if magic_present b
      then (Some (word1 b, word2 b), \<lparr>magic_present = False, word1 = 0, word2 = 0\<rparr>)
      else (None, b))"

text \<open>
  Modelled from the spec: the device around the hand-off buffer.  The firmware code of
  the upgrade handshake is not part of the sources.  The device holds the bootcom
  buffer, which survives a software reset, the upgrade session kept in ordinary memory,
  which does not, and the log of the hand-off operations and resets in the order they
  happened (oldest first).
\<close>

datatype dev_event = Ev_put "32 word" "32 word" | Ev_get "(32 word \<times> 32 word) option" | Ev_reset

record device_t =
  bootcom :: bootcom_t
  session :: "(32 word \<times> 32 word) option"
  events :: "dev_event list"

definition dev_bootcom_put :: "32 word \<Rightarrow> 32 word \<Rightarrow> device_t \<Rightarrow> device_t" where
  "dev_bootcom_put w1 w2 d =
     d\<lparr>bootcom := bootcom_put w1 w2 (bootcom d), events := events d @ [Ev_put w1 w2]\<rparr>"

definition scb_reset_system :: "device_t \<Rightarrow> device_t" where
  "scb_reset_system d = d\<lparr>session := None, events := events d @ [Ev_reset]\<rparr>"

text \<open>
  Modelled from the spec: on UpgradeStart the application writes the request into the
  hand-off area and resets (bootcom.h: \<^verbatim>\<open>bootcom_put(BOOTCOM_CMD_UPGRADE, firmware_size);
  scb_reset_system();\<close>).
\<close>

definition request_upgrade :: "32 word \<Rightarrow> 32 word \<Rightarrow> device_t \<Rightarrow> device_t" where
  "request_upgrade cmd param d = scb_reset_system (dev_bootcom_put cmd param d)"

text \<open>
  Modelled from the spec: after a reset the bootloader reads the hand-off area once;
  what it read becomes its upgrade session.
\<close>

definition bootloader_start :: "device_t \<Rightarrow> device_t" where
  "bootloader_start d =
     (let (r, b) = bootcom_get (bootcom d)
      in d\<lparr>bootcom := b, session := r, events := events d @ [Ev_get r]\<rparr>)"

section \<open>HTTP gateway (webserver.c)\<close>

subsection \<open>C library functions\<close>

text \<open>
  A C string is the characters before the first NUL.  On two C strings
  \<open>strncmp(a, b, n) == 0\<close> holds exactly when their first \<open>n\<close> characters agree (a
  string shorter than \<open>n\<close> must then agree as a whole).  \<open>snprintf\<close> stores at most
  \<open>size - 1\<close> characters.
\<close>

definition c_str :: "string \<Rightarrow> string" where
  "c_str buf = takeWhile (\<lambda>c. c \<noteq> CHR 0x00) buf"

definition strncmp_eq :: "string \<Rightarrow> string \<Rightarrow> nat \<Rightarrow> bool" where
  "strncmp_eq a b n = (take n a = take n b)"

definition snprintf :: "nat \<Rightarrow> string \<Rightarrow> string" where
  "snprintf sz s = take (sz - 1) s"

definition CRLF :: string where
  "CRLF = [CHR 0x0D, CHR 0x0A]"

text \<open>Decimal digits of a natural number, and the last \<open>w\<close> digits with leading zeros.\<close>

definition digit_char :: "nat \<Rightarrow> char" where
  "digit_char d = (if d < 10 then ''0123456789'' ! d else CHR ''?'')"

function show_nat :: "nat \<Rightarrow> string" where
  "show_nat n = (if n < 10 then [digit_char n] else show_nat (n div 10) @ [digit_char (n mod 10)])"
  by pat_completeness auto
termination
  by (relation "measure (\<lambda>n. n)") auto

declare show_nat.simps [simp del]

fun fixed_digits :: "nat \<Rightarrow> nat \<Rightarrow> string" where
  "fixed_digits 0 n = []"
| "fixed_digits (Suc w) n = fixed_digits w (n div 10) @ [digit_char (n mod 10)]"

text \<open>
  The expression \<open>v / 1000.0f\<close> for a 16-bit unsigned \<open>v\<close>, printed with \<open>%.Nf\<close>.
  \<open>v\<close> and 1000 are exact in binary32, and the division rounds the quotient to the
  nearest value with a 24-bit significand, ties to even: for \<open>v > 0\<close> the result is
  \<open>m / 2 ^ k\<close>, where \<open>k\<close> is the least exponent with \<open>2 ^ 23 \<le> v * 2 ^ k / 1000\<close> and \<open>m\<close>
  the rounded quotient of \<open>v * 2 ^ k\<close> by 1000.  The conversion to decimal rounds that
  exact value to \<open>N\<close> decimals, again ties to even.
\<close>

definition round_half_even :: "nat \<Rightarrow> nat \<Rightarrow> nat" where
  "round_half_even a b =
     (let q = a div b; r = a mod b
      in if 2 * r < b then q
         else if b < 2 * r then q + 1
         else if even q then q else q + 1)"

function f32_norm :: "nat \<Rightarrow> nat \<Rightarrow> nat" where
  "f32_norm v k = (if v = 0 \<or> 1000 * 2 ^ 23 \<le> v * 2 ^ k then k else f32_norm v (Suc k))"
  by pat_completeness auto
termination
proof (relation "measure (\<lambda>(v, k). 34 - k)")
  show "wf (measure (\<lambda>(v, k). 34 - k))" by simp
next
  fix v k :: nat
  assume a: "\<not> (v = 0 \<or> 1000 * 2 ^ 23 \<le> v * 2 ^ k)"
  have "k < 34"
  proof (rule ccontr)
    assume "\<not> k < 34"
    then have "(2::nat) ^ 34 \<le> 2 ^ k" by (intro power_increasing) simp_all
    moreover have "(2::nat) ^ k \<le> v * 2 ^ k" using a by simp
    ultimately have "(2::nat) ^ 34 \<le> v * 2 ^ k" by (rule order_trans)
    then show False using a by simp
  qed
  then show "((v, Suc k), (v, k)) \<in> measure (\<lambda>(v, k). 34 - k)" by simp
qed

declare f32_norm.simps [simp del]

definition f32_exponent :: "nat \<Rightarrow> nat" where
  "f32_exponent v = f32_norm v 0"

definition f32_div1000 :: "nat \<Rightarrow> nat \<times> nat" where
  "f32_div1000 v =
     (if v = 0 then (0, 0)
      else let k = f32_exponent v in (round_half_even (v * 2 ^ k) 1000, k))"

definition printf_f :: "nat \<Rightarrow> nat \<times> nat \<Rightarrow> string" where
  "printf_f prec x =
     (let n = round_half_even (fst x * 10 ^ prec) (2 ^ snd x)
      in show_nat (n div 10 ^ prec) @ ''.'' @ fixed_digits prec (n mod 10 ^ prec))"

subsection \<open>Constants and types\<close>

definition MAX_REQUEST_SIZE :: nat where "MAX_REQUEST_SIZE = 512"
definition MAX_RESPONSE_SIZE :: nat where "MAX_RESPONSE_SIZE = 2048"

definition http_html_header :: string where
  "http_html_header =
     ''HTTP/1.1 200 OK'' @ CRLF @ ''Content-Type: text/html'' @ CRLF @
     ''Connection: close'' @ CRLF @ CRLF"

definition http_json_header :: string where
  "http_json_header =
     ''HTTP/1.1 200 OK'' @ CRLF @ ''Content-Type: application/json'' @ CRLF @
     ''Access-Control-Allow-Origin: *'' @ CRLF @ ''Connection: close'' @ CRLF @ CRLF"

definition http_404 :: string where
  "http_404 = ''HTTP/1.1 404 Not Found'' @ CRLF @ ''Connection: close'' @ CRLF @ CRLF @ ''Not Found''"

definition http_options :: string where
  "http_options =
     ''HTTP/1.1 200 OK'' @ CRLF @ ''Access-Control-Allow-Origin: *'' @ CRLF @
     ''Access-Control-Allow-Methods: GET, POST, OPTIONS'' @ CRLF @
     ''Access-Control-Allow-Headers: Content-Type'' @ CRLF @ ''Connection: close'' @ CRLF @ CRLF"

text \<open>
  The callback type \<open>uart_comm_func_t\<close> of webserver.h: it takes the frame to send,
  leaves the response in the same frame and returns whether it succeeded.  The global
  \<open>g_uart_comm\<close> is \<open>None\<close> while it is \<open>NULL\<close>.
\<close>

type_synonym uart_comm_func_t = "frame_t \<Rightarrow> bool \<times> frame_t"

text \<open>
  What one call of \<open>handle_request\<close> does to the outside: the data given to
  \<open>netconn_write\<close>, in order, the frames handed to the UART callback, in order, and
  whether the connection was closed.  The embedded page \<open>index_html\<close> is a static
  literal of some six thousand characters; a write of it is recorded by name.
\<close>

datatype netconn_data = Text string | Index_html

record http_result =
  writes :: "netconn_data list"
  transactions :: "frame_t list"
  closed :: bool

subsection \<open>Frame helpers\<close>

definition bytes_of :: "string \<Rightarrow> 8 word list" where
  "bytes_of s = map of_char s"

definition create_query_frame :: "frame_t \<Rightarrow> frame_t" where
  "create_query_frame frame = end_frame (pack8 (set_frame_header frame) (cmd_code cmd_query))"

definition create_set_param_frame :: "frame_t \<Rightarrow> string \<Rightarrow> string \<Rightarrow> frame_t" where
  "create_set_param_frame frame param_name val =
     end_frame
       (pack_cstr
          (pack_cstr (pack8 (set_frame_header frame) (cmd_code cmd_set_parameters))
             (bytes_of param_name))
          (bytes_of val))"

definition create_enable_output_frame :: "frame_t \<Rightarrow> 8 word \<Rightarrow> frame_t" where
  "create_enable_output_frame frame enable =
     end_frame (pack8 (pack8 (set_frame_header frame) (cmd_code cmd_enable_output)) enable)"

text \<open>
  \<open>parse_query_response\<close> returns its \<open>bool\<close> and the contents of \<open>json_buf\<close>.  The
  three reads after \<open>output_enabled\<close> only move the cursor: their values are not used.
\<close>

definition parse_query_response :: "frame_t \<Rightarrow> nat \<Rightarrow> bool \<times> string" where
  \<open>parse_query_response frame buf_size =
     (let f0 = start_frame_unpacking frame;
          (cmd, r1, f1) = unpack8 f0;
          (status, r2, f2) = unpack8 f1
      in if cmd \<noteq> (cmd_code cmd_response OR cmd_code cmd_query) \<or> status = 0
         then (False, snprintf buf_size ''{"error":"invalid response"}'')
         else
           let (v_in, r3, f3) = unpack16 f2;
               (v_out, r4, f4) = unpack16 f3;
               (i_out, r5, f5) = unpack16 f4;
               (output_enabled, r6, f6) = unpack8 f5;
               (temp1, r7, f7) = unpack16 f6;
               (temp2, r8, f8) = unpack16 f7;
               (temp_shutdown, r9, f9) = unpack8 f8
           in (True,
               snprintf buf_size
                 (''{"v_in":'' @ printf_f 2 (f32_div1000 (unat v_in)) @
                  '',"v_out":'' @ printf_f 2 (f32_div1000 (unat v_out)) @
                  '',"i_out":'' @ printf_f 3 (f32_div1000 (unat i_out)) @
                  '',"output_enabled":'' @ (if output_enabled \<noteq> 0 then ''true'' else ''false'') @
                  ''}'')))\<close>

definition parse_simple_response :: "frame_t \<Rightarrow> bool" where
  "parse_simple_response frame =
     (let f0 = start_frame_unpacking frame;
          (cmd, r1, f1) = unpack8 f0;
          (status, r2, f2) = unpack8 f1
      in status \<noteq> 0)"

fun find_body :: "string \<Rightarrow> string option" where
  "find_body [] = None"
| "find_body (c # cs) =
     (if take 4 (c # cs) = CRLF @ CRLF then Some (drop 4 (c # cs)) else find_body cs)"

subsection \<open>Request handling\<close>

text \<open>
  The routing chain of \<open>handle_request\<close> on the NUL-terminated request text.  \<open>frame\<close>
  is the local variable \<open>frame_t frame\<close>, which the C code does not initialise: its
  contents on entry are whatever the stack holds.  The result is the list of writes and
  the list of frames given to the callback.
\<close>

definition success_json :: "bool \<Rightarrow> string" where
  \<open>success_json success =
     snprintf MAX_RESPONSE_SIZE
       (http_json_header @ ''{"success":'' @ (if success then ''true'' else ''false'') @ ''}'')\<close>

definition no_body_json :: string where
  \<open>no_body_json =
     snprintf MAX_RESPONSE_SIZE (http_json_header @ ''{"success":false,"error":"no body"}'')\<close>

definition route_request ::
  "uart_comm_func_t option \<Rightarrow> frame_t \<Rightarrow> string \<Rightarrow> netconn_data list \<times> frame_t list" where
  \<open>route_request g_uart_comm frame buf =
     (if strncmp_eq buf ''OPTIONS'' 7 then ([Text http_options], [])
      else if strncmp_eq buf ''GET / '' 6 \<or> strncmp_eq buf ''GET /index'' 10
      then ([Text http_html_header, Index_html], [])
      else if strncmp_eq buf ''GET /api/status'' 15
      then
        (let frame1 = create_query_frame frame
         in case g_uart_comm of
              None \<Rightarrow>
                ([Text (snprintf MAX_RESPONSE_SIZE
                    (http_json_header @ ''{"error":"communication timeout"}''))], [])
            | Some comm \<Rightarrow>
                (let (ok, frame2) = comm frame1
                 in if ok
                    then
                      (let (parsed, json) = parse_query_response frame2 256
                       in ([Text (snprintf MAX_RESPONSE_SIZE (http_json_header @ json))], [frame1]))
                    else
                      ([Text (snprintf MAX_RESPONSE_SIZE
                          (http_json_header @ ''{"error":"communication timeout"}''))], [frame1])))
      else if strncmp_eq buf ''POST /api/voltage'' 17
      then
        (case (find_body buf, g_uart_comm) of
           (Some body, Some comm) \<Rightarrow>
             (let frame1 = create_set_param_frame frame ''voltage'' body;
                  (ok, frame2) = comm frame1;
                  success = (ok \<and> parse_simple_response frame2)
              in ([Text (success_json success)], [frame1]))
         | _ \<Rightarrow> ([Text no_body_json], []))
      else if strncmp_eq buf ''POST /api/current'' 17
      then
        (case (find_body buf, g_uart_comm) of
           (Some body, Some comm) \<Rightarrow>
             (let frame1 = create_set_param_frame frame ''current'' body;
                  (ok, frame2) = comm frame1;
                  success = (ok \<and> parse_simple_response frame2)
              in ([Text (success_json success)], [frame1]))
         | _ \<Rightarrow> ([Text no_body_json], []))
      else if strncmp_eq buf ''POST /api/output'' 16
      then
        (case (find_body buf, g_uart_comm) of
           (Some body, Some comm) \<Rightarrow>
             (let enable = (if take 1 body = ''1'' then 1 else 0);
                  frame1 = create_enable_output_frame frame enable;
                  (ok, frame2) = comm frame1;
                  success = (ok \<and> parse_simple_response frame2)
              in ([Text (success_json success)], [frame1]))
         | _ \<Rightarrow> ([Text no_body_json], []))
      else ([Text http_404], []))\<close>

text \<open>
  \<open>handle_request\<close>: \<open>recv\<close> is what \<open>netconn_recv\<close> and \<open>netbuf_data\<close> deliver,
  \<open>None\<close> when \<open>netconn_recv\<close> fails, otherwise the \<open>buflen\<close> received bytes.  The
  function returns early on a receive error; a request of length 0 is closed without
  an answer; otherwise the buffer is NUL-terminated at \<open>buflen\<close>, or at
  \<open>MAX_REQUEST_SIZE - 1\<close> when it is longer, and routed.
\<close>

definition request_text :: "string \<Rightarrow> string" where
  "request_text buf =
     c_str (take (if length buf < MAX_REQUEST_SIZE - 1 then length buf else MAX_REQUEST_SIZE - 1) buf)"

definition handle_request ::
  "uart_comm_func_t option \<Rightarrow> frame_t \<Rightarrow> string option \<Rightarrow> http_result" where
  "handle_request g_uart_comm frame recv =
     (case recv of
        None \<Rightarrow> \<lparr>writes = [], transactions = [], closed = False\<rparr>
      | Some buf \<Rightarrow>
          if 0 < length buf
          then (let (ws, txs) = route_request g_uart_comm frame (request_text buf)
                in \<lparr>writes = ws, transactions = txs, closed = True\<rparr>)
          else \<lparr>writes = [], transactions = [], closed = True\<rparr>)"

text \<open>The three digits of the status code in the first write of a response.\<close>

definition status_code :: "http_result \<Rightarrow> string option" where
  "status_code r =
     (case writes r of
        Text t # ws \<Rightarrow> Some (take 3 (drop 9 t))
      | _ \<Rightarrow> None)"

subsection \<open>Routes, the contract of the gateway, example requests\<close>

text \<open>The tests of the routing chain by name.\<close>

definition is_options :: "string \<Rightarrow> bool" where
  "is_options buf = strncmp_eq buf ''OPTIONS'' 7"

definition is_index :: "string \<Rightarrow> bool" where
  "is_index buf = (strncmp_eq buf ''GET / '' 6 \<or> strncmp_eq buf ''GET /index'' 10)"

definition is_status :: "string \<Rightarrow> bool" where
  "is_status buf = strncmp_eq buf ''GET /api/status'' 15"

definition is_voltage :: "string \<Rightarrow> bool" where
  "is_voltage buf = strncmp_eq buf ''POST /api/voltage'' 17"

definition is_current :: "string \<Rightarrow> bool" where
  "is_current buf = strncmp_eq buf ''POST /api/current'' 17"

definition is_output :: "string \<Rightarrow> bool" where
  "is_output buf = strncmp_eq buf ''POST /api/output'' 16"

definition is_post :: "string \<Rightarrow> bool" where
  "is_post buf = (is_voltage buf \<or> is_current buf \<or> is_output buf)"

definition routed :: "string \<Rightarrow> bool" where
  "routed buf = (is_options buf \<or> is_index buf \<or> is_status buf \<or> is_voltage buf \<or> is_current buf \<or> is_output buf)"

text \<open>
  What the specification promises about a result of the routing chain, writes and
  frames: the status is 200 or 404; 404 exactly for an unrouted request, and then with
  the fixed 404 text and no frame sent; a failing callback on a POST route gives the
  JSON body with \<open>success\<close> false, on the status route the communication timeout.
\<close>

definition gateway_contract ::
  "uart_comm_func_t option \<Rightarrow> frame_t \<Rightarrow> string \<Rightarrow> netconn_data list \<times> frame_t list \<Rightarrow> bool" where
  \<open>gateway_contract g frame req res =
     (let r = \<lparr>writes = fst res, transactions = snd res, closed = True\<rparr> in
      (status_code r = Some ''200'' \<or> status_code r = Some ''404'') \<and>
      (status_code r = Some ''404'' \<longleftrightarrow> \<not> routed req) \<and>
      (\<not> routed req \<longrightarrow> fst res = [Text http_404] \<and> snd res = []) \<and>
      (\<forall>comm fr. is_post req \<and> g = Some comm \<and> snd res = [fr] \<and> \<not> fst (comm fr)
          \<longrightarrow> fst res = [Text (http_json_header @ ''{"success":false}'')]) \<and>
      (\<forall>comm. is_status req \<and> g = Some comm \<and> \<not> fst (comm (create_query_frame frame))
          \<longrightarrow> fst res = [Text (http_json_header @ ''{"error":"communication timeout"}'')]
              \<and> snd res = [create_query_frame frame]))\<close>

text \<open>Requests and response frames used as concrete inputs.\<close>

definition req_voltage_no_body :: string where
  "req_voltage_no_body = ''POST /api/voltage HTTP/1.1'' @ CRLF @ ''Content-Length: 0'' @ CRLF"

definition req_status :: string where
  "req_status = ''GET /api/status HTTP/1.1'' @ CRLF @ CRLF"

definition req_output_on :: string where
  "req_output_on = ''POST /api/output HTTP/1.1'' @ CRLF @ CRLF @ ''1''"

definition nak_frame :: frame_t where
  "nak_frame = \<lparr>buffer = [0x84, 0] @ replicate 126 0, flength = 2, crc = 0, unpack_pos = 0\<rparr>"

definition ack_frame :: frame_t where
  "ack_frame = \<lparr>buffer = [0x8c, 1] @ replicate 126 0, flength = 2, crc = 0, unpack_pos = 0\<rparr>"

definition req_voltage_1234 :: string where
  "req_voltage_1234 = ''POST /api/voltage HTTP/1.1'' @ CRLF @ CRLF @ ''12.34''"

definition req_unknown :: string where
  "req_unknown = ''GET /unknown HTTP/1.1'' @ CRLF @ CRLF"

text \<open>
  The scenario of the specification for GET /api/status: the device answers the query
  with \<open>v_in = 24000\<close>, \<open>v_out_setting = 5000\<close>, \<open>v_out = 5000\<close>, \<open>i_out = 1200\<close>,
  \<open>i_limit = 3000\<close>, \<open>enabled = 1\<close>, framed as protocol.h documents the query response.
  The callback extracts the payload of that frame into the frame it was given.
\<close>

definition scenario_response :: frame_t where
  "scenario_response = protocol_create_query_response empty_frame 24000 5000 5000 1200 3000 1"

definition scenario_comm :: uart_comm_func_t where
  "scenario_comm f =
     (case uframe_extract_payload f (buffer scenario_response) (flength scenario_response) of
        Inr g \<Rightarrow> (True, g)
      | Inl e \<Rightarrow> (False, f))"

definition scenario_payload :: "8 word list" where
  "scenario_payload = [0x84, 0x01, 0x5d, 0xc0, 0x13, 0x88, 0x13, 0x88, 0x04, 0xb0, 0x0b, 0xb8, 0x01]"

text \<open>
  A response frame in the layout \<open>parse_query_response\<close> reads: tag, status,
  \<open>v_in = 24000\<close>, \<open>v_out = 5000\<close>, \<open>i_out = 1200\<close>, \<open>output_enabled = 1\<close>, then two
  temperatures and the shutdown flag, all zero.  And a request of 512 bytes whose body
  \<open>1\<close> is the byte at index 511.
\<close>

definition gateway_layout_frame :: frame_t where
  "gateway_layout_frame =
     \<lparr>buffer = [0x84, 0x01, 0x5d, 0xc0, 0x13, 0x88, 0x04, 0xb0, 0x01, 0, 0, 0, 0, 0] @ replicate 114 0,
      flength = 14, crc = 0, unpack_pos = 0\<rparr>"

definition req_output_cut :: string where
  "req_output_cut = ''POST /api/output'' @ replicate 491 (CHR '' '') @ CRLF @ CRLF @ ''1''"

section \<open>Properties of the CRC engine\<close>

lemma crc16_loop_fold: "i \<le> len \<Longrightarrow> len \<le> length data \<Longrightarrow>
  crc16_loop data len i c = foldl crc16_add c (take (len - i) (drop i data))"
proof (induction data len i c rule: crc16_loop.induct)
  case (1 data len i crc)
  show ?case
  proof (cases "i < len")
    case True
    then have "take (len - i) (drop i data) = data ! i # take (len - Suc i) (drop (Suc i) data)"
      using 1(3) by (metis Cons_nth_drop_Suc Suc_diff_Suc less_le_trans take_Suc_Cons)
    with True 1 show ?thesis by (subst crc16_loop.simps) simp
  next
    case False
    with 1 show ?thesis by (subst crc16_loop.simps) simp
  qed
qed

lemma crc16_fold: "len \<le> length data \<Longrightarrow> crc16 data len = foldl crc16_add 0 (take len data)"
  using crc16_loop_fold [of 0 len data 0] by (simp add: crc16_def)

text \<open>
  The model computes the standard check value of CRC-16/CCITT with initial value 0:
  the CRC of the ASCII digits 1 to 9 is 0x31C3.
\<close>

lemma crc16_check_value:
  "crc16 [0x31, 0x32, 0x33, 0x34, 0x35, 0x36, 0x37, 0x38, 0x39] 9 = 0x31C3"
  by code_simp

text \<open>
  Claim C4.  \<open>crc16\<close> of a buffer with length 0 is 0, and for every buffer and every
  length within the buffer \<open>crc16\<close> is the left fold of \<open>crc16_add\<close> over the first
  \<open>length\<close> bytes, starting from 0.  Both are total functions of their arguments.
\<close>

theorem crc16_is_fold_of_crc16_add:
  "crc16 data 0 = 0 \<and>
   (len \<le> length data \<longrightarrow> crc16 data len = foldl crc16_add 0 (take len data))"
proof
  show "crc16 data 0 = 0"
    by (simp add: crc16_def crc16_loop.simps)
  show "len \<le> length data \<longrightarrow> crc16 data len = foldl crc16_add 0 (take len data)"
    by (simp add: crc16_fold)
qed

theorem crc16_is_fold_of_crc16_add_witness:
  "(3::nat) \<le> length [0x31, 0x32, 0x33, 0x34 :: 8 word] \<and>
   crc16 [0x31, 0x32, 0x33, 0x34] 3 = foldl crc16_add 0 [0x31, 0x32, 0x33]"
  using crc16_is_fold_of_crc16_add [of "[0x31, 0x32, 0x33, 0x34]" 3] by simp

section \<open>Properties of the frame codec\<close>

lemma take_take_append: "take n (take n xs @ ys) = take n (xs @ ys)"
  by (cases "n \<le> length xs") simp_all

lemma frame_ok_stuff8: "frame_ok f \<Longrightarrow> frame_ok (stuff8 f d)"
  by (simp add: frame_ok_def stuff8_def)

lemma wire_stuff8:
  "frame_ok f \<Longrightarrow> wire_bytes (stuff8 f d) = take MAX_FRAME_LENGTH (wire_bytes f @ [d])"
  by (auto simp: frame_ok_def stuff8_def wire_bytes_def take_Suc_conv_app_nth)

lemma crc_stuff8: "crc (stuff8 f d) = crc f"
  by (simp add: stuff8_def)

lemma frame_ok_stuff_escaped: "frame_ok f \<Longrightarrow> frame_ok (stuff_escaped f d)"
  by (simp add: stuff_escaped_def frame_ok_stuff8)

lemma crc_stuff_escaped: "crc (stuff_escaped f d) = crc f"
  by (simp add: stuff_escaped_def crc_stuff8)

lemma wire_stuff_escaped:
  assumes "frame_ok f"
  shows "wire_bytes (stuff_escaped f d) = take MAX_FRAME_LENGTH (wire_bytes f @ esc1 d)"
proof (cases "needs_escape d")
  case True
  have "wire_bytes (stuff8 (stuff8 f uf_DLE) (d XOR uf_XOR))
        = take MAX_FRAME_LENGTH (take MAX_FRAME_LENGTH (wire_bytes f @ [uf_DLE]) @ [d XOR uf_XOR])"
    using assms by (simp only: wire_stuff8 frame_ok_stuff8)
  also have "\<dots> = take MAX_FRAME_LENGTH ((wire_bytes f @ [uf_DLE]) @ [d XOR uf_XOR])"
    by (rule take_take_append)
  finally show ?thesis using True by (simp add: stuff_escaped_def esc1_def)
next
  case False
  then show ?thesis using assms by (simp add: stuff_escaped_def esc1_def wire_stuff8)
qed

lemma frame_ok_pack8: "frame_ok f \<Longrightarrow> frame_ok (pack8 f d)"
proof -
  assume "frame_ok f"
  then have "frame_ok (f\<lparr>crc := crc16_add (crc f) d\<rparr>)" by (simp add: frame_ok_def)
  then show ?thesis unfolding pack8_def by (rule frame_ok_stuff_escaped)
qed

lemma crc_pack8: "crc (pack8 f d) = crc16_add (crc f) d"
  by (simp add: pack8_def crc_stuff_escaped)

lemma wire_pack8:
  "frame_ok f \<Longrightarrow> wire_bytes (pack8 f d) = take MAX_FRAME_LENGTH (wire_bytes f @ esc1 d)"
proof -
  assume ok: "frame_ok f"
  let ?g = "f\<lparr>crc := crc16_add (crc f) d\<rparr>"
  have "frame_ok ?g" using ok by (simp add: frame_ok_def)
  then have "wire_bytes (stuff_escaped ?g d) = take MAX_FRAME_LENGTH (wire_bytes ?g @ esc1 d)"
    by (rule wire_stuff_escaped)
  then show ?thesis by (simp add: pack8_def wire_bytes_def)
qed

lemma escape_Nil: "escape [] = []"
  by (simp add: escape_def)

lemma escape_snoc: "escape (p @ [d]) = escape p @ esc1 d"
  by (simp add: escape_def)

lemma escape_append: "escape (p @ q) = escape p @ escape q"
  by (simp add: escape_def)

lemma foldl_pack8:
  "frame_ok f \<Longrightarrow>
   frame_ok (foldl pack8 f p) \<and>
   crc (foldl pack8 f p) = foldl crc16_add (crc f) p \<and>
   wire_bytes (foldl pack8 f p) = take MAX_FRAME_LENGTH (wire_bytes f @ escape p)"
proof (induction p rule: rev_induct)
  case Nil
  then show ?case by (simp add: escape_Nil frame_ok_def wire_bytes_def)
next
  case (snoc d p)
  then have ih: "frame_ok (foldl pack8 f p)"
    "crc (foldl pack8 f p) = foldl crc16_add (crc f) p"
    "wire_bytes (foldl pack8 f p) = take MAX_FRAME_LENGTH (wire_bytes f @ escape p)"
    by simp_all
  have "wire_bytes (foldl pack8 f (p @ [d]))
        = take MAX_FRAME_LENGTH (take MAX_FRAME_LENGTH (wire_bytes f @ escape p) @ esc1 d)"
    using ih(1) ih(3) by (simp add: wire_pack8)
  also have "\<dots> = take MAX_FRAME_LENGTH ((wire_bytes f @ escape p) @ esc1 d)"
    by (rule take_take_append)
  finally have "wire_bytes (foldl pack8 f (p @ [d]))
        = take MAX_FRAME_LENGTH (wire_bytes f @ escape (p @ [d]))"
    by (simp add: escape_snoc)
  then show ?case using ih by (simp add: frame_ok_pack8 crc_pack8)
qed

lemma set_frame_header_props:
  "length (buffer f) = MAX_FRAME_LENGTH \<Longrightarrow>
   frame_ok (set_frame_header f) \<and> crc (set_frame_header f) = 0 \<and>
   wire_bytes (set_frame_header f) = [uf_SOF]"
  by (cases "buffer f")
     (simp_all add: set_frame_header_def frame_ok_def wire_bytes_def MAX_FRAME_LENGTH_def)

lemma wire_end_frame:
  assumes "frame_ok f"
  shows "wire_bytes (end_frame f) =
     take MAX_FRAME_LENGTH (wire_bytes f @ escape [crc_hi (crc f), crc_lo (crc f)] @ [uf_EOF])"
proof -
  let ?h = "crc_hi (crc f)" and ?l = "crc_lo (crc f)"
  let ?f1 = "stuff_escaped f ?h"
  let ?f2 = "stuff_escaped ?f1 ?l"
  have ok1: "frame_ok ?f1" and ok2: "frame_ok ?f2"
    using assms by (simp_all add: frame_ok_stuff_escaped)
  have "wire_bytes (stuff8 ?f2 uf_EOF) = take MAX_FRAME_LENGTH (wire_bytes ?f2 @ [uf_EOF])"
    using ok2 by (rule wire_stuff8)
  also have "wire_bytes ?f2 = take MAX_FRAME_LENGTH (wire_bytes ?f1 @ esc1 ?l)"
    using ok1 by (rule wire_stuff_escaped)
  also have "take MAX_FRAME_LENGTH (take MAX_FRAME_LENGTH (wire_bytes ?f1 @ esc1 ?l) @ [uf_EOF])
      = take MAX_FRAME_LENGTH ((wire_bytes ?f1 @ esc1 ?l) @ [uf_EOF])"
    by (rule take_take_append)
  also have "wire_bytes ?f1 = take MAX_FRAME_LENGTH (wire_bytes f @ esc1 ?h)"
    using assms by (rule wire_stuff_escaped)
  also have "take MAX_FRAME_LENGTH ((take MAX_FRAME_LENGTH (wire_bytes f @ esc1 ?h) @ esc1 ?l) @ [uf_EOF])
      = take MAX_FRAME_LENGTH ((wire_bytes f @ esc1 ?h) @ esc1 ?l @ [uf_EOF])"
    using take_take_append [of MAX_FRAME_LENGTH "wire_bytes f @ esc1 ?h" "esc1 ?l @ [uf_EOF]"]
    by simp
  finally show ?thesis by (simp add: end_frame_def escape_def)
qed

lemma wire_build_frame:
  assumes "length (buffer f) = MAX_FRAME_LENGTH"
  shows "wire_bytes (build_frame f p) = take MAX_FRAME_LENGTH (wire_form p)"
proof -
  let ?g = "foldl pack8 (set_frame_header f) p"
  note h = set_frame_header_props [OF assms]
  from h have g: "frame_ok ?g" "crc ?g = frame_crc p"
    "wire_bytes ?g = take MAX_FRAME_LENGTH ([uf_SOF] @ escape p)"
    using foldl_pack8 [of "set_frame_header f" p] by (simp_all add: frame_crc_def)
  have "wire_bytes (end_frame ?g) =
     take MAX_FRAME_LENGTH (take MAX_FRAME_LENGTH ([uf_SOF] @ escape p)
        @ escape [crc_hi (frame_crc p), crc_lo (frame_crc p)] @ [uf_EOF])"
    using wire_end_frame [OF g(1)] g(2) g(3) by simp
  also have "\<dots> = take MAX_FRAME_LENGTH (([uf_SOF] @ escape p)
        @ escape [crc_hi (frame_crc p), crc_lo (frame_crc p)] @ [uf_EOF])"
    by (rule take_take_append)
  finally show ?thesis by (simp add: build_frame_def wire_form_def)
qed

lemma length_unescape_le: "length (unescape xs) \<le> length xs"
  by (induction xs rule: unescape.induct) auto

lemma unescape_plain: "b \<noteq> uf_DLE \<Longrightarrow> unescape (b # bs) = b # unescape bs"
  by (cases bs) simp_all

lemma xor_xor_cancel: "(d XOR uf_XOR) XOR uf_XOR = (d :: 8 word)"
  by (simp add: xor.assoc)

lemma unescape_esc1: "unescape (esc1 d @ rest) = d # unescape rest"
proof (cases "needs_escape d")
  case True
  then show ?thesis by (simp add: esc1_def xor_xor_cancel)
next
  case False
  then have "d \<noteq> uf_DLE" by (simp add: needs_escape_def)
  with False show ?thesis by (simp add: esc1_def unescape_plain)
qed

lemma unescape_escape: "unescape (escape xs) = xs"
  by (induction xs) (simp_all add: escape_def unescape_esc1)

lemma esc1_no_markers: "uf_SOF \<notin> set (esc1 d) \<and> uf_EOF \<notin> set (esc1 d)"
proof (cases "needs_escape d")
  case True
  then have "d XOR uf_XOR \<noteq> uf_SOF \<and> d XOR uf_XOR \<noteq> uf_EOF"
    by (auto simp: needs_escape_def uf_SOF_def uf_DLE_def uf_EOF_def uf_XOR_def)
  with True show ?thesis
    by (simp add: esc1_def uf_SOF_def uf_DLE_def uf_EOF_def)
next
  case False
  then show ?thesis by (auto simp: esc1_def needs_escape_def)
qed

lemma escape_no_markers: "uf_SOF \<notin> set (escape xs) \<and> uf_EOF \<notin> set (escape xs)"
  using esc1_no_markers by (auto simp: escape_def)

lemma index_of_first_None: "index_of_first x xs = None \<longleftrightarrow> x \<notin> set xs"
  by (induction xs) auto

lemma index_of_last_None: "index_of_last x xs = None \<longleftrightarrow> x \<notin> set xs"
  by (simp add: index_of_last_def index_of_first_None)

lemma index_of_last_snoc: "index_of_last x (xs @ [x]) = Some (length xs)"
  by (simp add: index_of_last_def)

lemma crc_bytes_join: "push_bit 8 (ucast (crc_hi c)) OR ucast (crc_lo c) = (c :: 16 word)"
  unfolding crc_hi_def crc_lo_def
  by (rule bit_word_eqI) (auto simp: bit_simps)

lemma extract_wire_form:
  assumes "length (wire_form p) \<le> MAX_FRAME_LENGTH"
    and "take len data = wire_form p"
  shows "uframe_extract_payload g data len =
     Inr (g\<lparr>buffer := p @ drop (length p) (buffer g), flength := length p, unpack_pos := 0\<rparr>)"
proof -
  let ?c = "frame_crc p"
  let ?mid = "escape (p @ [crc_hi ?c, crc_lo ?c])"
  let ?un = "p @ [crc_hi ?c, crc_lo ?c]"
  have raw: "take len data = uf_SOF # ?mid @ [uf_EOF]"
    using assms(2) by (simp add: wire_form_def escape_append)
  have first: "index_of_first uf_SOF (uf_SOF # ?mid @ [uf_EOF]) = Some 0"
    by simp
  have last: "index_of_last uf_EOF (uf_SOF # ?mid @ [uf_EOF]) = Some (Suc (length ?mid))"
    using index_of_last_snoc [of uf_EOF "uf_SOF # ?mid"] by simp
  have span: "unescape (take (Suc (length ?mid) - 0 - 1) (drop (0 + 1) (uf_SOF # ?mid @ [uf_EOF]))) = ?un"
    by (simp add: unescape_escape)
  have n: "length ?un = length p + 2" by simp
  have small: "\<not> MAX_FRAME_LENGTH < length ?un"
  proof -
    have "length ?un \<le> length ?mid"
      using length_unescape_le [of ?mid] by (simp only: unescape_escape)
    also have "\<dots> \<le> length (wire_form p)"
      by (simp add: wire_form_def escape_append)
    finally show ?thesis using assms(1) by simp
  qed
  have pay: "take (length ?un - 2) ?un = p" by simp
  have hi: "?un ! (length ?un - 2) = crc_hi ?c" by (simp add: nth_append)
  have lo: "?un ! (length ?un - 1) = crc_lo ?c" by (simp add: nth_append)
  have crc: "crc16 p (length p) = ?c"
    by (simp add: crc16_fold frame_crc_def)
  have two: "\<not> length ?un < 2" by simp
  show ?thesis
    unfolding uframe_extract_payload_def Let_def raw first last span option.case
    using small crc by (simp add: nth_append crc_bytes_join)
qed

lemma length_esc1: "length (esc1 d) \<le> 2"
  by (simp add: esc1_def)

lemma length_escape_le: "length (escape xs) \<le> 2 * length xs"
proof (induction xs)
  case Nil
  show ?case by (simp add: escape_def)
next
  case (Cons d xs)
  have "escape (d # xs) = esc1 d @ escape xs" by (simp add: escape_def)
  then show ?case using Cons length_esc1 [of d] by simp
qed

lemma wire_form_bound: "length (wire_form p) \<le> FRAME_OVERHEAD (length p)"
  using length_escape_le [of p] length_escape_le [of "[crc_hi (frame_crc p), crc_lo (frame_crc p)]"]
  by (simp add: wire_form_def FRAME_OVERHEAD_def)

lemma extract_truncated:
  assumes "length (buffer f) = MAX_FRAME_LENGTH" "MAX_FRAME_LENGTH - 1 \<le> length (escape p)"
  shows "uframe_extract_payload g (buffer (build_frame f p)) (flength (build_frame f p)) = Inl E_FRM"
proof -
  let ?b = "build_frame f p"
  have "take (flength ?b) (buffer ?b) = take MAX_FRAME_LENGTH (wire_form p)"
    using wire_build_frame [OF assms(1), of p] by (simp add: wire_bytes_def)
  also have "\<dots> = uf_SOF # take (MAX_FRAME_LENGTH - 1) (escape p)"
    using assms(2) by (simp add: wire_form_def MAX_FRAME_LENGTH_def)
  finally have raw: "take (flength ?b) (buffer ?b) = uf_SOF # take (MAX_FRAME_LENGTH - 1) (escape p)" .
  have "uf_EOF \<notin> set (take (MAX_FRAME_LENGTH - 1) (escape p))"
    using escape_no_markers [of p] by (meson in_set_takeD)
  then have "uf_EOF \<notin> set (uf_SOF # take (MAX_FRAME_LENGTH - 1) (escape p))"
    by (simp add: uf_SOF_def uf_EOF_def)
  then have last: "index_of_last uf_EOF (uf_SOF # take (MAX_FRAME_LENGTH - 1) (escape p)) = None"
    using index_of_last_None by blast
  show ?thesis
    unfolding uframe_extract_payload_def Let_def raw last by simp
qed

lemma escape_replicate: "needs_escape d \<Longrightarrow> length (escape (replicate n d)) = 2 * n"
  by (induction n) (simp_all add: escape_def esc1_def)

lemma short_payload_fits:
  "length p \<le> 61 \<Longrightarrow> length (wire_form p) \<le> MAX_FRAME_LENGTH"
  using wire_form_bound [of p] by (simp add: FRAME_OVERHEAD_def MAX_FRAME_LENGTH_def)

lemma build_frame_fits:
  assumes "length (buffer f) = MAX_FRAME_LENGTH" "length (wire_form p) \<le> MAX_FRAME_LENGTH"
  shows "wire_bytes (build_frame f p) = wire_form p"
  using wire_build_frame [OF assms(1), of p] assms(2) by simp

lemma extract_build_frame:
  assumes "length (buffer f) = MAX_FRAME_LENGTH" "length (wire_form p) \<le> MAX_FRAME_LENGTH"
  shows "extracted_payload g (buffer (build_frame f p)) (flength (build_frame f p)) = Inr p"
proof -
  have "take (flength (build_frame f p)) (buffer (build_frame f p)) = wire_form p"
    using build_frame_fits [OF assms] by (simp add: wire_bytes_def)
  from extract_wire_form [OF assms(2) this, of g]
  show ?thesis by (simp add: extracted_payload_def payload_of_def)
qed

lemma length_empty_frame: "length (buffer empty_frame) = MAX_FRAME_LENGTH"
  by (simp add: empty_frame_def)

text \<open>
  Claim C1, as the specification states it, fails: a payload of 124 bytes 0x7E needs
  248 bytes for its escaped form alone, the 128-byte buffer holds SOF and the first 127
  of them, and extraction of the buffer contents finds no EOF.
\<close>

theorem roundtrip_124_counterexample:
  "extracted_payload empty_frame
     (buffer (build_frame empty_frame (replicate 124 0x7e)))
     (flength (build_frame empty_frame (replicate 124 0x7e))) \<noteq> Inr (replicate 124 0x7e)"
proof -
  have "needs_escape 0x7e" by (simp add: needs_escape_def uf_SOF_def)
  then have "length (escape (replicate 124 0x7e)) = 248"
    using escape_replicate [of "0x7e" 124] by simp
  then have "MAX_FRAME_LENGTH - 1 \<le> length (escape (replicate 124 0x7e))"
    by (simp add: MAX_FRAME_LENGTH_def)
  then show ?thesis
    using extract_truncated [OF length_empty_frame, of "replicate 124 0x7e" empty_frame]
    by (simp add: extracted_payload_def)
qed

text \<open>
  Claim C1, amended.  For every payload whose wire form (SOF, escaped payload, escaped
  CRC, EOF) fits the 128-byte frame buffer, building the frame (\<open>set_frame_header\<close>,
  \<open>pack8\<close> for every byte, \<open>end_frame\<close>) and running \<open>uframe_extract_payload\<close> on the
  buffer contents succeeds and returns exactly the payload.  Every payload of at most
  61 bytes fits (\<open>short_payload_fits\<close>).
\<close>

theorem roundtrip_when_frame_fits:
  assumes "length (buffer f) = MAX_FRAME_LENGTH"
    and "length (wire_form p) \<le> MAX_FRAME_LENGTH"
  shows "extracted_payload g (buffer (build_frame f p)) (flength (build_frame f p)) = Inr p"
  using assms by (rule extract_build_frame)

theorem roundtrip_when_frame_fits_witness:
  "length (buffer empty_frame) = MAX_FRAME_LENGTH \<and>
   length (wire_form [0x01, 0x7e, 0x02]) \<le> MAX_FRAME_LENGTH \<and>
   extracted_payload empty_frame
     (buffer (build_frame empty_frame [0x01, 0x7e, 0x02]))
     (flength (build_frame empty_frame [0x01, 0x7e, 0x02])) = Inr [0x01, 0x7e, 0x02]"
proof -
  have fits: "length (wire_form [0x01, 0x7e, 0x02]) \<le> MAX_FRAME_LENGTH"
    by (rule short_payload_fits) simp
  from roundtrip_when_frame_fits [OF length_empty_frame fits, of empty_frame]
  show ?thesis using fits length_empty_frame by simp
qed




section \<open>Properties of the command layer\<close>

lemma ocp_is_build:
  "protocol_create_ocp f i = build_frame f [cmd_code cmd_ocp_event, ucast i, ucast (drop_bit 8 i)]"
  by (simp add: protocol_create_ocp_def build_frame_def)

lemma pack16_is_build:
  "end_frame (pack16 (set_frame_header f) v) = build_frame f [ucast (drop_bit 8 v), ucast v]"
  by (simp add: pack16_def build_frame_def)

lemma query_response_is_build:
  "protocol_create_query_response f v_in v_out_setting v_out i_out i_limit en =
   build_frame f [cmd_code cmd_response OR cmd_code cmd_query, 1,
     ucast (drop_bit 8 v_in), ucast v_in,
     ucast (drop_bit 8 v_out_setting), ucast v_out_setting,
     ucast (drop_bit 8 v_out), ucast v_out,
     ucast (drop_bit 8 i_out), ucast i_out,
     ucast (drop_bit 8 i_limit), ucast i_limit, en]"
  by (simp add: protocol_create_query_response_def pack16_def build_frame_def)

text \<open>
  Claim C9.  The frame made by \<open>protocol_create_ocp\<close> carries the tag \<open>cmd_ocp_event\<close>
  and then the 16-bit current with the low byte first and the high byte second.  This
  is the reverse of the order in which \<open>pack16\<close> writes a 16-bit field (high byte
  first), the order of the five 16-bit fields of the query response.
\<close>

theorem ocp_low_byte_first:
  assumes "length (buffer f) = MAX_FRAME_LENGTH"
  shows "extracted_payload g (buffer (protocol_create_ocp f i_cut))
           (flength (protocol_create_ocp f i_cut))
         = Inr [8, ucast i_cut, ucast (drop_bit 8 i_cut)]
       \<and> extracted_payload g (buffer (end_frame (pack16 (set_frame_header f) v)))
           (flength (end_frame (pack16 (set_frame_header f) v)))
         = Inr [ucast (drop_bit 8 v), ucast v]
       \<and> extracted_payload g
           (buffer (protocol_create_query_response f v_in v_out_setting v_out i_out i_limit en))
           (flength (protocol_create_query_response f v_in v_out_setting v_out i_out i_limit en))
         = Inr [0x84, 1, ucast (drop_bit 8 v_in), ucast v_in,
                ucast (drop_bit 8 v_out_setting), ucast v_out_setting,
                ucast (drop_bit 8 v_out), ucast v_out,
                ucast (drop_bit 8 i_out), ucast i_out,
                ucast (drop_bit 8 i_limit), ucast i_limit, en]"
proof -
  have a: "extracted_payload g (buffer (protocol_create_ocp f i_cut))
           (flength (protocol_create_ocp f i_cut))
         = Inr [8, ucast i_cut, ucast (drop_bit 8 i_cut)]"
    unfolding ocp_is_build
    using extract_build_frame [OF assms short_payload_fits, of "[cmd_code cmd_ocp_event, ucast i_cut, ucast (drop_bit 8 i_cut)]" g]
    by simp
  have b: "extracted_payload g (buffer (end_frame (pack16 (set_frame_header f) v)))
           (flength (end_frame (pack16 (set_frame_header f) v)))
         = Inr [ucast (drop_bit 8 v), ucast v]"
    unfolding pack16_is_build
    by (rule extract_build_frame [OF assms short_payload_fits]) simp
  have c: "extracted_payload g
           (buffer (protocol_create_query_response f v_in v_out_setting v_out i_out i_limit en))
           (flength (protocol_create_query_response f v_in v_out_setting v_out i_out i_limit en))
         = Inr [0x84, 1, ucast (drop_bit 8 v_in), ucast v_in,
                ucast (drop_bit 8 v_out_setting), ucast v_out_setting,
                ucast (drop_bit 8 v_out), ucast v_out,
                ucast (drop_bit 8 i_out), ucast i_out,
                ucast (drop_bit 8 i_limit), ucast i_limit, en]"
    unfolding query_response_is_build
    using extract_build_frame [OF assms short_payload_fits, of "[cmd_code cmd_response OR cmd_code cmd_query, 1,
     ucast (drop_bit 8 v_in), ucast v_in,
     ucast (drop_bit 8 v_out_setting), ucast v_out_setting,
     ucast (drop_bit 8 v_out), ucast v_out,
     ucast (drop_bit 8 i_out), ucast i_out,
     ucast (drop_bit 8 i_limit), ucast i_limit, en]" g]
    by simp
  from a b c show ?thesis by blast
qed

theorem ocp_low_byte_first_witness:
  "length (buffer empty_frame) = MAX_FRAME_LENGTH \<and>
   extracted_payload empty_frame (buffer (protocol_create_ocp empty_frame 0x1234))
     (flength (protocol_create_ocp empty_frame 0x1234)) = Inr [8, 0x34, 0x12] \<and>
   extracted_payload empty_frame (buffer (end_frame (pack16 (set_frame_header empty_frame) 0x1234)))
     (flength (end_frame (pack16 (set_frame_header empty_frame) 0x1234))) = Inr [0x12, 0x34]"
  using ocp_low_byte_first [OF length_empty_frame, of empty_frame "0x1234" "0x1234"] length_empty_frame
  by simp

section \<open>Properties of the bootloader hand-off\<close>

text \<open>
  Claim C5.  In the upgrade request the hand-off words are written before the reset:
  the log of \<open>request_upgrade\<close> ends with the put followed by the reset, and the words
  are in the buffer after the reset.  A successful \<open>bootcom_get\<close> returns the stored
  words and clears the record: the bootloader that starts after the reset reads the
  request, and a bootloader that starts after one more reset reads nothing.
\<close>

theorem handoff_before_reset_and_read_once:
  "events (request_upgrade cmd param d) = events d @ [Ev_put cmd param, Ev_reset]
   \<and> bootcom_get (bootcom (request_upgrade cmd param d))
       = (Some (cmd, param), \<lparr>magic_present = False, word1 = 0, word2 = 0\<rparr>)
   \<and> session (bootloader_start (request_upgrade cmd param d)) = Some (cmd, param)
   \<and> session (bootloader_start (scb_reset_system (bootloader_start (request_upgrade cmd param d)))) = None
   \<and> events (bootloader_start (scb_reset_system (bootloader_start (request_upgrade cmd param d))))
       = events d @ [Ev_put cmd param, Ev_reset, Ev_get (Some (cmd, param)), Ev_reset, Ev_get None]
   \<and> (fst (bootcom_get b) \<noteq> None \<longrightarrow>
        fst (bootcom_get b) = Some (word1 b, word2 b) \<and>
        fst (bootcom_get (snd (bootcom_get b))) = None)
   \<and> fst (bootcom_get (bootcom_put w1 w2 b)) = Some (w1, w2)"
  by (simp add: request_upgrade_def scb_reset_system_def dev_bootcom_put_def bootcom_put_def
      bootcom_get_def bootloader_start_def)

theorem handoff_before_reset_and_read_once_witness:
  "fst (bootcom_get \<lparr>magic_present = True, word1 = 7, word2 = 256\<rparr>) \<noteq> None \<and>
   fst (bootcom_get \<lparr>magic_present = True, word1 = 7, word2 = 256\<rparr>) = Some (7, 256) \<and>
   fst (bootcom_get (snd (bootcom_get \<lparr>magic_present = True, word1 = 7, word2 = 256\<rparr>))) = None"
proof -
  let ?b = "\<lparr>magic_present = True, word1 = 7, word2 = 256\<rparr>"
  have h: "fst (bootcom_get ?b) \<noteq> None"
    by (simp add: bootcom_get_def)
  have w: "word1 ?b = 7" "word2 ?b = 256" by simp_all
  from handoff_before_reset_and_read_once [of 0 0 "\<lparr>bootcom = ?b, session = None, events = []\<rparr>" ?b 0 0]
  have "fst (bootcom_get ?b) \<noteq> None \<longrightarrow>
        fst (bootcom_get ?b) = Some (word1 ?b, word2 ?b) \<and>
        fst (bootcom_get (snd (bootcom_get ?b))) = None"
    by blast
  with h show ?thesis unfolding w by blast
qed

section \<open>Properties of the HTTP gateway\<close>

lemma strncmp_both:
  assumes "strncmp_eq buf a n" "strncmp_eq buf b m"
  shows "take (min n m) (take n a) = take (min n m) (take m b)"
proof -
  have "take (min n m) (take n a) = take (min n m) (take n buf)"
    using assms(1) by (simp add: strncmp_eq_def)
  also have "\<dots> = take (min n m) (take m buf)"
    by (simp add: min.commute min.left_commute)
  also have "\<dots> = take (min n m) (take m b)"
    using assms(2) by (simp add: strncmp_eq_def)
  finally show ?thesis .
qed

lemma status_excl:
  assumes "strncmp_eq buf ''GET /api/status'' 15"
  shows "\<not> strncmp_eq buf ''OPTIONS'' 7" "\<not> strncmp_eq buf ''GET / '' 6"
    "\<not> strncmp_eq buf ''GET /index'' 10"
  using strncmp_both [OF assms, of "''OPTIONS''" 7]
    strncmp_both [OF assms, of "''GET / ''" 6]
    strncmp_both [OF assms, of "''GET /index''" 10]
  by auto

lemma voltage_excl:
  assumes "strncmp_eq buf ''POST /api/voltage'' 17"
  shows "\<not> strncmp_eq buf ''OPTIONS'' 7" "\<not> strncmp_eq buf ''GET / '' 6"
    "\<not> strncmp_eq buf ''GET /index'' 10" "\<not> strncmp_eq buf ''GET /api/status'' 15"
  using strncmp_both [OF assms, of "''OPTIONS''" 7]
    strncmp_both [OF assms, of "''GET / ''" 6]
    strncmp_both [OF assms, of "''GET /index''" 10]
    strncmp_both [OF assms, of "''GET /api/status''" 15]
  by auto

lemma current_excl:
  assumes "strncmp_eq buf ''POST /api/current'' 17"
  shows "\<not> strncmp_eq buf ''OPTIONS'' 7" "\<not> strncmp_eq buf ''GET / '' 6"
    "\<not> strncmp_eq buf ''GET /index'' 10" "\<not> strncmp_eq buf ''GET /api/status'' 15"
    "\<not> strncmp_eq buf ''POST /api/voltage'' 17"
  using strncmp_both [OF assms, of "''OPTIONS''" 7]
    strncmp_both [OF assms, of "''GET / ''" 6]
    strncmp_both [OF assms, of "''GET /index''" 10]
    strncmp_both [OF assms, of "''GET /api/status''" 15]
    strncmp_both [OF assms, of "''POST /api/voltage''" 17]
  by auto

lemma output_excl:
  assumes "strncmp_eq buf ''POST /api/output'' 16"
  shows "\<not> strncmp_eq buf ''OPTIONS'' 7" "\<not> strncmp_eq buf ''GET / '' 6"
    "\<not> strncmp_eq buf ''GET /index'' 10" "\<not> strncmp_eq buf ''GET /api/status'' 15"
    "\<not> strncmp_eq buf ''POST /api/voltage'' 17" "\<not> strncmp_eq buf ''POST /api/current'' 17"
  using strncmp_both [OF assms, of "''OPTIONS''" 7]
    strncmp_both [OF assms, of "''GET / ''" 6]
    strncmp_both [OF assms, of "''GET /index''" 10]
    strncmp_both [OF assms, of "''GET /api/status''" 15]
    strncmp_both [OF assms, of "''POST /api/voltage''" 17]
    strncmp_both [OF assms, of "''POST /api/current''" 17]
  by auto

lemma route_status:
  assumes "strncmp_eq buf ''GET /api/status'' 15"
  shows \<open>route_request g frame buf =
    (case g of
       None \<Rightarrow> ([Text (snprintf MAX_RESPONSE_SIZE
                    (http_json_header @ ''{"error":"communication timeout"}''))], [])
     | Some comm \<Rightarrow>
         (if fst (comm (create_query_frame frame))
          then ([Text (snprintf MAX_RESPONSE_SIZE (http_json_header @
                   snd (parse_query_response (snd (comm (create_query_frame frame))) 256)))],
                [create_query_frame frame])
          else ([Text (snprintf MAX_RESPONSE_SIZE
                    (http_json_header @ ''{"error":"communication timeout"}''))],
                [create_query_frame frame])))\<close>
  unfolding route_request_def
  using assms status_excl [OF assms]
  by (simp add: Let_def split: option.split prod.split)

lemma route_voltage:
  assumes "strncmp_eq buf ''POST /api/voltage'' 17"
  shows \<open>route_request g frame buf =
    (case (find_body buf, g) of
       (Some body, Some comm) \<Rightarrow>
         ([Text (success_json
             (fst (comm (create_set_param_frame frame ''voltage'' body)) \<and>
              parse_simple_response (snd (comm (create_set_param_frame frame ''voltage'' body)))))],
          [create_set_param_frame frame ''voltage'' body])
     | _ \<Rightarrow> ([Text no_body_json], []))\<close>
  unfolding route_request_def
  using assms voltage_excl [OF assms]
  by (simp add: Let_def split: option.split prod.split)

lemma route_current:
  assumes "strncmp_eq buf ''POST /api/current'' 17"
  shows \<open>route_request g frame buf =
    (case (find_body buf, g) of
       (Some body, Some comm) \<Rightarrow>
         ([Text (success_json
             (fst (comm (create_set_param_frame frame ''current'' body)) \<and>
              parse_simple_response (snd (comm (create_set_param_frame frame ''current'' body)))))],
          [create_set_param_frame frame ''current'' body])
     | _ \<Rightarrow> ([Text no_body_json], []))\<close>
  unfolding route_request_def
  using assms current_excl [OF assms]
  by (simp add: Let_def split: option.split prod.split)

lemma route_output:
  assumes "strncmp_eq buf ''POST /api/output'' 16"
  shows \<open>route_request g frame buf =
    (case (find_body buf, g) of
       (Some body, Some comm) \<Rightarrow>
         ([Text (success_json
             (fst (comm (create_enable_output_frame frame (if take 1 body = ''1'' then 1 else 0))) \<and>
              parse_simple_response
                (snd (comm (create_enable_output_frame frame (if take 1 body = ''1'' then 1 else 0))))))],
          [create_enable_output_frame frame (if take 1 body = ''1'' then 1 else 0)])
     | _ \<Rightarrow> ([Text no_body_json], []))\<close>
  unfolding route_request_def
  using assms output_excl [OF assms]
  by (simp add: Let_def split: option.split prod.split)

lemma length_json_header: "length http_json_header = 102"
  by (simp add: http_json_header_def CRLF_def)

lemma snprintf_short: "length s < sz \<Longrightarrow> snprintf sz s = s"
  by (simp add: snprintf_def)

lemma no_body_json_text:
  \<open>no_body_json = http_json_header @ ''{"success":false,"error":"no body"}''\<close>
  unfolding no_body_json_def
  by (rule snprintf_short) (simp add: length_json_header MAX_RESPONSE_SIZE_def)

lemma success_json_text:
  \<open>success_json b = http_json_header @ ''{"success":'' @ (if b then ''true'' else ''false'') @ ''}''\<close>
  unfolding success_json_def
  by (rule snprintf_short) (simp add: length_json_header MAX_RESPONSE_SIZE_def)

lemma json_status_200:
  "take 3 (drop 9 (snprintf MAX_RESPONSE_SIZE (http_json_header @ x))) = ''200''"
  by (simp add: snprintf_def MAX_RESPONSE_SIZE_def http_json_header_def)

lemma handle_nonempty:
  "0 < length buf \<Longrightarrow>
   handle_request g frame (Some buf) =
     \<lparr>writes = fst (route_request g frame (request_text buf)),
      transactions = snd (route_request g frame (request_text buf)), closed = True\<rparr>"
  by (simp add: handle_request_def split: prod.split)

text \<open>
  Claim C7.  A POST request to /api/voltage, /api/current or /api/output in which no
  header/body separator is found is answered with HTTP 200 and the JSON body
  \<^verbatim>\<open>{"success":false,"error":"no body"}\<close>, and no frame is handed to the UART callback.
\<close>

theorem post_without_body:
  assumes "0 < length buf"
    and "strncmp_eq (request_text buf) ''POST /api/voltage'' 17
         \<or> strncmp_eq (request_text buf) ''POST /api/current'' 17
         \<or> strncmp_eq (request_text buf) ''POST /api/output'' 16"
    and "find_body (request_text buf) = None"
  shows \<open>handle_request g frame (Some buf) =
           \<lparr>writes = [Text (http_json_header @ ''{"success":false,"error":"no body"}'')],
            transactions = [], closed = True\<rparr>
         \<and> status_code (handle_request g frame (Some buf)) = Some ''200''\<close>
proof -
  have r: "route_request g frame (request_text buf) = ([Text no_body_json], [])"
    using assms(2)
  proof (elim disjE)
    assume "strncmp_eq (request_text buf) ''POST /api/voltage'' 17"
    from route_voltage [OF this] show ?thesis using assms(3) by simp
  next
    assume "strncmp_eq (request_text buf) ''POST /api/current'' 17"
    from route_current [OF this] show ?thesis using assms(3) by simp
  next
    assume "strncmp_eq (request_text buf) ''POST /api/output'' 16"
    from route_output [OF this] show ?thesis using assms(3) by simp
  qed
  have h: "handle_request g frame (Some buf) =
      \<lparr>writes = [Text no_body_json], transactions = [], closed = True\<rparr>"
    using handle_nonempty [OF assms(1), of g frame] r by simp
  have s: "take 3 (drop 9 no_body_json) = ''200''"
    unfolding no_body_json_def by (rule json_status_200)
  show ?thesis
    unfolding h status_code_def using s by (simp add: no_body_json_text)
qed

lemma request_text_plain:
  "length buf < MAX_REQUEST_SIZE - 1 \<Longrightarrow> CHR 0x00 \<notin> set buf \<Longrightarrow> request_text buf = buf"
  by (auto simp: request_text_def c_str_def takeWhile_eq_all_conv)

theorem post_without_body_witness:
  \<open>0 < length req_voltage_no_body \<and>
   strncmp_eq (request_text req_voltage_no_body) ''POST /api/voltage'' 17 \<and>
   find_body (request_text req_voltage_no_body) = None \<and>
   handle_request None empty_frame (Some req_voltage_no_body) =
     \<lparr>writes = [Text (http_json_header @ ''{"success":false,"error":"no body"}'')],
      transactions = [], closed = True\<rparr>\<close>
proof -
  have t: "request_text req_voltage_no_body = req_voltage_no_body"
    by (rule request_text_plain)
       (simp_all add: req_voltage_no_body_def CRLF_def MAX_REQUEST_SIZE_def)
  have a: "0 < length req_voltage_no_body" by (simp add: req_voltage_no_body_def)
  have b: "strncmp_eq (request_text req_voltage_no_body) ''POST /api/voltage'' 17"
    unfolding t by (simp add: strncmp_eq_def req_voltage_no_body_def)
  have c: "find_body (request_text req_voltage_no_body) = None"
    unfolding t by (simp add: req_voltage_no_body_def CRLF_def)
  from post_without_body [OF a disjI1 [OF b] c, of None empty_frame] a b c
  show ?thesis by blast
qed

lemma payload_head2:
  assumes "payload_of f = c # st # rest"
  shows "byte_at f 0 = c \<and> byte_at f 1 = st"
proof -
  have "buffer f = (c # st # rest) @ drop (flength f) (buffer f)"
    using assms append_take_drop_id [of "flength f" "buffer f"] by (simp add: payload_of_def)
  then obtain ys where "buffer f = c # st # ys" by simp
  then show ?thesis by (simp add: byte_at_def)
qed

lemma parse_query_invalid:
  assumes "byte_at f 0 \<noteq> cmd_code cmd_response OR cmd_code cmd_query \<or> byte_at f 1 = 0"
  shows \<open>parse_query_response f 256 = (False, ''{"error":"invalid response"}'')\<close>
  using assms
  by (auto simp: parse_query_response_def start_frame_unpacking_def unpack8_def byte_at_def
      Let_def snprintf_def)

lemma parse_simple_status: "parse_simple_response f = (byte_at f 1 \<noteq> 0)"
  by (simp add: parse_simple_response_def start_frame_unpacking_def unpack8_def byte_at_def Let_def)

text \<open>
  Claim C10.  When a GET /api/status request reaches a callback that succeeds and
  leaves a frame whose first payload byte is not \<open>cmd_response | cmd_query\<close> or whose
  status byte is 0, the answer is HTTP 200 with the JSON body
  \<^verbatim>\<open>{"error":"invalid response"}\<close>.
\<close>

theorem status_invalid_response:
  assumes "0 < length buf"
    and "strncmp_eq (request_text buf) ''GET /api/status'' 15"
    and "comm (create_query_frame frame) = (True, resp)"
    and "payload_of resp = c # st # rest"
    and "c \<noteq> cmd_code cmd_response OR cmd_code cmd_query \<or> st = 0"
  shows \<open>handle_request (Some comm) frame (Some buf) =
           \<lparr>writes = [Text (http_json_header @ ''{"error":"invalid response"}'')],
            transactions = [create_query_frame frame], closed = True\<rparr>
         \<and> status_code (handle_request (Some comm) frame (Some buf)) = Some ''200''\<close>
proof -
  have p: \<open>parse_query_response resp 256 = (False, ''{"error":"invalid response"}'')\<close>
    using payload_head2 [OF assms(4)] assms(5) by (intro parse_query_invalid) simp
  have r: \<open>route_request (Some comm) frame (request_text buf) =
      ([Text (snprintf MAX_RESPONSE_SIZE (http_json_header @ ''{"error":"invalid response"}''))],
       [create_query_frame frame])\<close>
    using route_status [OF assms(2), of "Some comm" frame] assms(3) p by simp
  have t: \<open>snprintf MAX_RESPONSE_SIZE (http_json_header @ ''{"error":"invalid response"}'')
      = http_json_header @ ''{"error":"invalid response"}''\<close>
    by (rule snprintf_short) (simp add: length_json_header MAX_RESPONSE_SIZE_def)
  have s: \<open>take 3 (drop 9 (http_json_header @ ''{"error":"invalid response"}'')) = ''200''\<close>
    using json_status_200 [of \<open>''{"error":"invalid response"}''\<close>] by (simp only: t)
  have h: \<open>handle_request (Some comm) frame (Some buf) =
      \<lparr>writes = [Text (http_json_header @ ''{"error":"invalid response"}'')],
       transactions = [create_query_frame frame], closed = True\<rparr>\<close>
    using handle_nonempty [OF assms(1), of "Some comm" frame] r t by simp
  show ?thesis unfolding h status_code_def using s by simp
qed

theorem status_invalid_response_witness:
  \<open>0 < length req_status \<and>
   strncmp_eq (request_text req_status) ''GET /api/status'' 15 \<and>
   payload_of nak_frame = [0x84, 0] \<and>
   handle_request (Some (\<lambda>f. (True, nak_frame))) empty_frame (Some req_status) =
     \<lparr>writes = [Text (http_json_header @ ''{"error":"invalid response"}'')],
      transactions = [create_query_frame empty_frame], closed = True\<rparr>\<close>
proof -
  have t: "request_text req_status = req_status"
    by (rule request_text_plain) (simp_all add: req_status_def CRLF_def MAX_REQUEST_SIZE_def)
  have a: "0 < length req_status" by (simp add: req_status_def)
  have b: "strncmp_eq (request_text req_status) ''GET /api/status'' 15"
    unfolding t by (simp add: strncmp_eq_def req_status_def)
  have c: "payload_of nak_frame = [0x84, 0]"
    by (simp add: payload_of_def nak_frame_def)
  have d: "(\<lambda>f. (True, nak_frame)) (create_query_frame empty_frame) = (True, nak_frame)"
    by simp
  from status_invalid_response [OF a b d c, of ] a b c
  show ?thesis by blast
qed

lemma enable_output_is_build:
  "create_enable_output_frame f en = build_frame f [cmd_code cmd_enable_output, en]"
  by (simp add: create_enable_output_frame_def build_frame_def)

lemma find_body_skip: "c \<noteq> CHR 0x0D \<Longrightarrow> find_body (c # cs) = find_body cs"
  by (simp add: CRLF_def)

lemma find_body_prefix: "CHR 0x0D \<notin> set xs \<Longrightarrow> find_body (xs @ rest) = find_body rest"
proof (induction xs)
  case Nil
  show ?case by simp
next
  case (Cons a xs)
  then have "a \<noteq> CHR 0x0D" by auto
  then have "find_body (a # (xs @ rest)) = find_body (xs @ rest)" by (rule find_body_skip)
  with Cons show ?case by (simp del: find_body.simps)
qed

lemma find_body_separator: "find_body (CRLF @ CRLF @ rest) = Some rest"
  by (simp add: CRLF_def)

lemma find_body_output_cut: "find_body req_output_cut = Some ''1''"
proof -
  have e: "req_output_cut
      = (''POST /api/output'' @ replicate 491 (CHR '' '')) @ (CRLF @ CRLF @ ''1'')"
    by (simp add: req_output_cut_def)
  have "find_body ((''POST /api/output'' @ replicate 491 (CHR '' '')) @ (CRLF @ CRLF @ ''1''))
      = find_body (CRLF @ CRLF @ ''1'')"
    by (rule find_body_prefix) simp
  also have "\<dots> = Some ''1''" by (rule find_body_separator)
  finally show ?thesis unfolding e .
qed

lemma request_text_output_cut:
  "request_text req_output_cut = ''POST /api/output'' @ replicate 491 (CHR '' '') @ CRLF @ CRLF"
proof -
  let ?t = "''POST /api/output'' @ replicate 491 (CHR '' '') @ CRLF @ CRLF"
  have l: "length ?t = 511" by (simp add: CRLF_def)
  have r: "req_output_cut = ?t @ ''1''" by (simp add: req_output_cut_def)
  have tk: "take 511 req_output_cut = ?t" unfolding r using l by simp
  have len: "length req_output_cut = 512" unfolding r using l by simp
  have nz: "\<forall>c \<in> set ?t. c \<noteq> CHR 0x00" by (auto simp: CRLF_def)
  have "request_text req_output_cut = c_str (take 511 req_output_cut)"
    by (simp add: request_text_def len MAX_REQUEST_SIZE_def)
  also have "\<dots> = ?t"
    unfolding tk c_str_def using nz by (simp only: takeWhile_eq_all_conv)
  finally show ?thesis .
qed

lemma find_body_text_output_cut: "find_body (request_text req_output_cut) = Some []"
proof -
  have e: "''POST /api/output'' @ replicate 491 (CHR '' '') @ CRLF @ CRLF
      = (''POST /api/output'' @ replicate 491 (CHR '' '')) @ (CRLF @ CRLF @ [])"
    by simp
  have "find_body ((''POST /api/output'' @ replicate 491 (CHR '' '')) @ (CRLF @ CRLF @ []))
      = find_body (CRLF @ CRLF @ [])"
    by (rule find_body_prefix) simp
  also have "\<dots> = Some []" by (rule find_body_separator)
  finally show ?thesis unfolding request_text_output_cut e .
qed

text \<open>
  Claim C8, as the specification states it, fails in two ways.  With no UART callback
  installed (\<open>g_uart_comm\<close> is \<open>NULL\<close>) a POST to /api/output with body \<open>1\<close> sends no
  frame and is answered with the no-body JSON.  And a request of 512 bytes whose body
  \<open>1\<close> is the byte at index 511 is NUL-terminated at that index, so the gateway sees an
  empty body and sends EnableOutput with payload 0.
\<close>

theorem post_output_counterexample:
  \<open>transactions (handle_request None empty_frame (Some req_output_on)) = []
   \<and> writes (handle_request None empty_frame (Some req_output_on)) =
       [Text (http_json_header @ ''{"success":false,"error":"no body"}'')]
   \<and> find_body req_output_on = Some ''1''
   \<and> find_body req_output_cut = Some ''1''
   \<and> transactions (handle_request (Some (\<lambda>f. (True, ack_frame))) empty_frame (Some req_output_cut)) =
       [create_enable_output_frame empty_frame 0]\<close>
proof -
  have t: "request_text req_output_on = req_output_on"
    by (rule request_text_plain) (simp_all add: req_output_on_def CRLF_def MAX_REQUEST_SIZE_def)
  have a: "0 < length req_output_on" by (simp add: req_output_on_def)
  have b: "strncmp_eq (request_text req_output_on) ''POST /api/output'' 16"
    unfolding t by (simp add: strncmp_eq_def req_output_on_def)
  have fb: "find_body req_output_on = Some ''1''"
    by (simp add: req_output_on_def CRLF_def)
  have r1: "route_request None empty_frame (request_text req_output_on) = ([Text no_body_json], [])"
    using route_output [OF b, of None empty_frame] by (simp add: t fb)
  have h1: "handle_request None empty_frame (Some req_output_on) =
      \<lparr>writes = [Text no_body_json], transactions = [], closed = True\<rparr>"
    using handle_nonempty [OF a, of None empty_frame] r1 by simp
  have a2: "0 < length req_output_cut" by (simp add: req_output_cut_def)
  have b2: "strncmp_eq (request_text req_output_cut) ''POST /api/output'' 16"
    by (simp add: request_text_output_cut strncmp_eq_def)
  let ?c = "\<lambda>f :: frame_t. (True, ack_frame)"
  have r2: "snd (route_request (Some ?c) empty_frame (request_text req_output_cut)) =
      [create_enable_output_frame empty_frame 0]"
    using route_output [OF b2, of "Some ?c" empty_frame]
    by (simp add: find_body_text_output_cut)
  have h2: "transactions (handle_request (Some ?c) empty_frame (Some req_output_cut)) =
      [create_enable_output_frame empty_frame 0]"
    using handle_nonempty [OF a2, of "Some ?c" empty_frame] r2 by simp
  show ?thesis
    unfolding h1 using fb find_body_output_cut h2 by (simp add: no_body_json_text)
qed

text \<open>
  Claim C8, amended.  With a UART callback installed, a POST request to /api/output
  whose request text as the gateway reads it (the received bytes up to the first NUL,
  cut at 511 bytes) has a non-empty body hands exactly one frame to the callback, the
  EnableOutput command with payload byte 1 when the first character of that body is
  \<open>1\<close> and 0 for any other first character, and answers with HTTP 200 and
  \<^verbatim>\<open>{"success":true}\<close> when the callback succeeds and the status byte of the response is
  not 0, with \<^verbatim>\<open>{"success":false}\<close> otherwise.  With no callback installed the same
  request sends no frame and is answered with the no-body JSON.
\<close>

theorem post_output_sends_enable:
  assumes "0 < length buf"
    and "strncmp_eq (request_text buf) ''POST /api/output'' 16"
    and "find_body (request_text buf) = Some (b # body)"
    and "length (buffer frame) = MAX_FRAME_LENGTH"
  shows \<open>transactions (handle_request (Some comm) frame (Some buf)) =
           [create_enable_output_frame frame (if b = CHR ''1'' then 1 else 0)]
         \<and> extracted_payload g
             (buffer (create_enable_output_frame frame (if b = CHR ''1'' then 1 else 0)))
             (flength (create_enable_output_frame frame (if b = CHR ''1'' then 1 else 0)))
           = Inr [12, if b = CHR ''1'' then 1 else 0]
         \<and> writes (handle_request (Some comm) frame (Some buf)) =
           [Text (http_json_header @ ''{"success":'' @
              (if fst (comm (create_enable_output_frame frame (if b = CHR ''1'' then 1 else 0)))
                  \<and> byte_at (snd (comm (create_enable_output_frame frame
                                (if b = CHR ''1'' then 1 else 0)))) 1 \<noteq> 0
               then ''true'' else ''false'') @ ''}'')]
         \<and> status_code (handle_request (Some comm) frame (Some buf)) = Some ''200''
         \<and> handle_request None frame (Some buf) =
           \<lparr>writes = [Text (http_json_header @ ''{"success":false,"error":"no body"}'')],
            transactions = [], closed = True\<rparr>\<close>
proof -
  let ?en = "if b = CHR ''1'' then 1 else 0 :: 8 word"
  let ?fr = "create_enable_output_frame frame ?en"
  let ?ok = "fst (comm ?fr) \<and> byte_at (snd (comm ?fr)) 1 \<noteq> 0"
  have en: "(if take 1 (b # body) = ''1'' then 1 else 0 :: 8 word) = ?en" by simp
  have r: "route_request (Some comm) frame (request_text buf) = ([Text (success_json ?ok)], [?fr])"
    using route_output [OF assms(2), of "Some comm" frame] assms(3)
    by (simp only: en parse_simple_status option.case prod.case)
  have h: "handle_request (Some comm) frame (Some buf) =
      \<lparr>writes = [Text (success_json ?ok)], transactions = [?fr], closed = True\<rparr>"
    using handle_nonempty [OF assms(1), of "Some comm" frame] r by simp
  have e: "extracted_payload g (buffer ?fr) (flength ?fr) = Inr [12, ?en]"
    unfolding enable_output_is_build
    using extract_build_frame [OF assms(4) short_payload_fits, of "[cmd_code cmd_enable_output, ?en]" g]
    by simp
  have s: "take 3 (drop 9 (success_json ?ok)) = ''200''"
    unfolding success_json_def by (rule json_status_200)
  have w: \<open>success_json ?ok = http_json_header @ ''{"success":'' @ (if ?ok then ''true'' else ''false'') @ ''}''\<close>
    by (rule success_json_text)
  have sc: "status_code (handle_request (Some comm) frame (Some buf)) = Some ''200''"
    unfolding h status_code_def using s by simp
  have tx: "transactions (handle_request (Some comm) frame (Some buf)) = [?fr]"
    unfolding h by simp
  have wr: \<open>writes (handle_request (Some comm) frame (Some buf)) =
     [Text (http_json_header @ ''{"success":'' @ (if ?ok then ''true'' else ''false'') @ ''}'')]\<close>
    unfolding h using w by simp
  have rn: "route_request None frame (request_text buf) = ([Text no_body_json], [])"
    using route_output [OF assms(2), of None frame] assms(3) by simp
  have hn: \<open>handle_request None frame (Some buf) =
      \<lparr>writes = [Text (http_json_header @ ''{"success":false,"error":"no body"}'')],
       transactions = [], closed = True\<rparr>\<close>
    using handle_nonempty [OF assms(1), of None frame] rn by (simp add: no_body_json_text)
  from tx e wr sc hn show ?thesis by blast
qed

theorem post_output_sends_enable_witness:
  \<open>0 < length req_output_on \<and>
   strncmp_eq (request_text req_output_on) ''POST /api/output'' 16 \<and>
   find_body (request_text req_output_on) = Some ''1'' \<and>
   length (buffer empty_frame) = MAX_FRAME_LENGTH \<and>
   transactions (handle_request (Some (\<lambda>f. (True, ack_frame))) empty_frame (Some req_output_on)) =
     [create_enable_output_frame empty_frame 1] \<and>
   extracted_payload empty_frame (buffer (create_enable_output_frame empty_frame 1))
     (flength (create_enable_output_frame empty_frame 1)) = Inr [12, 1] \<and>
   writes (handle_request (Some (\<lambda>f. (True, ack_frame))) empty_frame (Some req_output_on)) =
     [Text (http_json_header @ ''{"success":true}'')]\<close>
proof -
  have t: "request_text req_output_on = req_output_on"
    by (rule request_text_plain) (simp_all add: req_output_on_def CRLF_def MAX_REQUEST_SIZE_def)
  have a: "0 < length req_output_on" by (simp add: req_output_on_def)
  have b: "strncmp_eq (request_text req_output_on) ''POST /api/output'' 16"
    unfolding t by (simp add: strncmp_eq_def req_output_on_def)
  have c: "find_body (request_text req_output_on) = Some (CHR ''1'' # [])"
    unfolding t by (simp add: req_output_on_def CRLF_def)
  have d: "byte_at ack_frame 1 \<noteq> 0" by (simp add: byte_at_def ack_frame_def)
  from post_output_sends_enable [OF a b c length_empty_frame, of "\<lambda>f. (True, ack_frame)" empty_frame]
  show ?thesis using a b c d length_empty_frame by simp
qed

lemma route_options:
  assumes "is_options buf"
  shows "route_request g frame buf = ([Text http_options], [])"
  using assms by (simp add: route_request_def is_options_def)

lemma route_index:
  assumes "\<not> is_options buf" "is_index buf"
  shows "route_request g frame buf = ([Text http_html_header, Index_html], [])"
  using assms by (simp add: route_request_def is_options_def is_index_def)

lemma route_none:
  assumes "\<not> routed buf"
  shows "route_request g frame buf = ([Text http_404], [])"
  using assms
  by (simp add: route_request_def routed_def is_options_def is_index_def is_status_def
      is_voltage_def is_current_def is_output_def)

lemma status_not_others:
  assumes "is_status buf"
  shows "\<not> is_options buf" "\<not> is_index buf" "\<not> is_post buf"
proof -
  have st: "strncmp_eq buf ''GET /api/status'' 15" using assms by (simp add: is_status_def)
  show "\<not> is_options buf" "\<not> is_index buf"
    using status_excl [OF st] by (simp_all add: is_options_def is_index_def)
  show "\<not> is_post buf"
    using voltage_excl(4) [of buf] current_excl(4) [of buf] output_excl(4) [of buf] st
    by (auto simp: is_post_def is_voltage_def is_current_def is_output_def)
qed

lemma post_not_others:
  assumes "is_post buf"
  shows "\<not> is_options buf" "\<not> is_index buf" "\<not> is_status buf"
  using assms voltage_excl [of buf] current_excl [of buf] output_excl [of buf]
  by (auto simp: is_post_def is_voltage_def is_current_def is_output_def is_options_def
      is_index_def is_status_def)

lemma status_200_options: "take 3 (drop 9 http_options) = ''200''"
  by (simp add: http_options_def)

lemma status_200_html: "take 3 (drop 9 http_html_header) = ''200''"
  by (simp add: http_html_header_def)

lemma status_404: "take 3 (drop 9 http_404) = ''404''"
  by (simp add: http_404_def)

lemma header_status_200: "take 3 (drop 9 (http_json_header @ x)) = ''200''"
  by (simp add: http_json_header_def)

lemma timeout_json_text:
  \<open>snprintf MAX_RESPONSE_SIZE (http_json_header @ ''{"error":"communication timeout"}'')
     = http_json_header @ ''{"error":"communication timeout"}''\<close>
  by (rule snprintf_short) (simp add: length_json_header MAX_RESPONSE_SIZE_def)

lemma contractI:
  assumes "routed req" and "take 3 (drop 9 t) = ''200''"
    and \<open>\<And>comm fr. is_post req \<Longrightarrow> g = Some comm \<Longrightarrow> txs = [fr] \<Longrightarrow> \<not> fst (comm fr)
           \<Longrightarrow> t = http_json_header @ ''{"success":false}''\<close>
    and \<open>\<And>comm. is_status req \<Longrightarrow> g = Some comm \<Longrightarrow> \<not> fst (comm (create_query_frame frame))
           \<Longrightarrow> t = http_json_header @ ''{"error":"communication timeout"}''
               \<and> txs = [create_query_frame frame]\<close>
  shows "gateway_contract g frame req ([Text t], txs)"
  unfolding gateway_contract_def Let_def
  using assms by (simp add: status_code_def)

lemma contract_post:
  assumes "is_post req"
    and "res = (case (fb, g) of
       (Some body, Some comm) \<Rightarrow>
         ([Text (success_json (fst (comm (F body)) \<and> parse_simple_response (snd (comm (F body)))))],
          [F body])
     | _ \<Rightarrow> ([Text no_body_json], []))"
  shows "gateway_contract g frame req res"
proof -
  have rt: "routed req" using assms(1) by (auto simp: routed_def is_post_def)
  have ns: "\<not> is_status req" using post_not_others [OF assms(1)] by simp
  have s1: "\<And>b. take 3 (drop 9 (success_json b)) = ''200''"
    unfolding success_json_def by (rule json_status_200)
  have s2: "take 3 (drop 9 no_body_json) = ''200''"
    unfolding no_body_json_def by (rule json_status_200)
  have sf: \<open>success_json False = http_json_header @ ''{"success":false}''\<close>
    by (simp add: success_json_text)
  show ?thesis
  proof (cases fb)
    case None
    then have "res = ([Text no_body_json], [])" using assms(2) by simp
    then show ?thesis using contractI [OF rt s2, of g "[]" frame] ns by simp
  next
    case (Some body)
    show ?thesis
    proof (cases g)
      case None
      then have "res = ([Text no_body_json], [])" using assms(2) Some by simp
      then show ?thesis using contractI [OF rt s2, of g "[]" frame] ns by simp
    next
      case (Some comm)
      let ?ok = "fst (comm (F body)) \<and> parse_simple_response (snd (comm (F body)))"
      have res: "res = ([Text (success_json ?ok)], [F body])"
        using assms(2) Some \<open>fb = Some body\<close> by simp
      have "gateway_contract g frame req (Text (success_json ?ok) # [], [F body])"
      proof (rule contractI [OF rt s1])
        fix c fr
        assume "g = Some c" "[F body] = [fr]" "\<not> fst (c fr)"
        then have "?ok = False" using Some by simp
        then show \<open>success_json ?ok = http_json_header @ ''{"success":false}''\<close>
          using sf by (simp only:)
      next
        fix c
        assume "is_status req"
        then show \<open>success_json ?ok = http_json_header @ ''{"error":"communication timeout"}''
               \<and> [F body] = [create_query_frame frame]\<close>
          using ns by simp
      qed
      then show ?thesis using res by simp
    qed
  qed
qed

lemma contract_status:
  assumes "is_status req"
  shows "gateway_contract g frame req (route_request g frame req)"
proof -
  have st: "strncmp_eq req ''GET /api/status'' 15" using assms by (simp add: is_status_def)
  have rt: "routed req" using assms by (simp add: routed_def)
  have np: "\<not> is_post req" using status_not_others [OF assms] by simp
  let ?to = \<open>snprintf MAX_RESPONSE_SIZE (http_json_header @ ''{"error":"communication timeout"}'')\<close>
  have s: "\<And>x. take 3 (drop 9 (snprintf MAX_RESPONSE_SIZE (http_json_header @ x))) = ''200''"
    by (rule json_status_200)
  show ?thesis
  proof (cases g)
    case None
    then have r: "route_request g frame req = ([Text ?to], [])"
      using route_status [OF st, of g frame] by simp
    have "gateway_contract g frame req (Text ?to # [], [])"
      by (rule contractI [OF rt s]) (use np None in simp_all)
    then show ?thesis using r by simp
  next
    case (Some comm)
    show ?thesis
    proof (cases "fst (comm (create_query_frame frame))")
      case True
      let ?t = "snprintf MAX_RESPONSE_SIZE (http_json_header @
                   snd (parse_query_response (snd (comm (create_query_frame frame))) 256))"
      have r: "route_request g frame req = ([Text ?t], [create_query_frame frame])"
        using route_status [OF st, of g frame] Some True by simp
      have "gateway_contract g frame req (Text ?t # [], [create_query_frame frame])"
        by (rule contractI [OF rt s]) (use np Some True in simp_all)
      then show ?thesis using r by simp
    next
      case False
      have r: "route_request g frame req = ([Text ?to], [create_query_frame frame])"
        using route_status [OF st, of g frame] Some False by simp
      have "gateway_contract g frame req (Text ?to # [], [create_query_frame frame])"
        by (rule contractI [OF rt s]) (use np Some False timeout_json_text in simp_all)
      then show ?thesis using r by simp
    qed
  qed
qed

lemma contract_all: "gateway_contract g frame req (route_request g frame req)"
proof -
  consider (o) "is_options req" | (i) "\<not> is_options req" "is_index req" | (s) "is_status req"
    | (v) "is_voltage req" | (c) "is_current req" | (u) "is_output req" | (n) "\<not> routed req"
    by (auto simp: routed_def)
  then show ?thesis
  proof cases
    case o
    have "\<not> is_status req" "\<not> is_post req"
      using o status_not_others(1) [of req] post_not_others(1) [of req] by auto
    then show ?thesis
      unfolding gateway_contract_def Let_def route_options [OF o]
      using o status_200_options by (simp add: status_code_def routed_def)
  next
    case i
    have "\<not> is_status req" "\<not> is_post req"
      using i status_not_others(2) [of req] post_not_others(2) [of req] by auto
    then show ?thesis
      unfolding gateway_contract_def Let_def route_index [OF i]
      using i status_200_html by (simp add: status_code_def routed_def)
  next
    case s
    then show ?thesis by (rule contract_status)
  next
    case v
    then have "is_post req" by (simp add: is_post_def)
    then show ?thesis
      by (rule contract_post) (rule route_voltage [OF v [unfolded is_voltage_def]])
  next
    case c
    then have "is_post req" by (simp add: is_post_def)
    then show ?thesis
      by (rule contract_post) (rule route_current [OF c [unfolded is_current_def]])
  next
    case u
    then have "is_post req" by (simp add: is_post_def)
    then show ?thesis
      by (rule contract_post) (rule route_output [OF u [unfolded is_output_def]])
  next
    case n
    have "\<not> is_status req" "\<not> is_post req"
      using n by (auto simp: routed_def is_post_def)
    then show ?thesis
      unfolding gateway_contract_def Let_def route_none [OF n]
      using n status_404 by (simp add: status_code_def)
  qed
qed

text \<open>
  Claim C6.  For every received, non-empty request the connection is closed after one
  answer whose status is 200 or 404, never 5xx.  The status is 404 exactly when no
  route matches, and then the answer is the fixed 404 text and no frame is handed to
  the UART callback.  When the callback returns false on a POST route the answer is
  HTTP 200 with \<^verbatim>\<open>{"success":false}\<close>; when it returns false on GET /api/status the answer
  is HTTP 200 with \<^verbatim>\<open>{"error":"communication timeout"}\<close>.
\<close>

theorem gateway_never_5xx:
  assumes "0 < length buf"
  shows \<open>closed (handle_request g frame (Some buf))
    \<and> (status_code (handle_request g frame (Some buf)) = Some ''200''
       \<or> status_code (handle_request g frame (Some buf)) = Some ''404'')
    \<and> (status_code (handle_request g frame (Some buf)) = Some ''404''
         \<longleftrightarrow> \<not> routed (request_text buf))
    \<and> (\<not> routed (request_text buf) \<longrightarrow>
         writes (handle_request g frame (Some buf)) = [Text http_404]
         \<and> transactions (handle_request g frame (Some buf)) = [])
    \<and> (is_post (request_text buf) \<and> g = Some comm
         \<and> transactions (handle_request g frame (Some buf)) = [fr] \<and> \<not> fst (comm fr) \<longrightarrow>
         writes (handle_request g frame (Some buf)) =
           [Text (http_json_header @ ''{"success":false}'')])
    \<and> (is_status (request_text buf) \<and> g = Some comm
         \<and> \<not> fst (comm (create_query_frame frame)) \<longrightarrow>
         writes (handle_request g frame (Some buf)) =
           [Text (http_json_header @ ''{"error":"communication timeout"}'')]
         \<and> transactions (handle_request g frame (Some buf)) = [create_query_frame frame])\<close>
proof -
  let ?res = "route_request g frame (request_text buf)"
  have h: "handle_request g frame (Some buf) =
      \<lparr>writes = fst ?res, transactions = snd ?res, closed = True\<rparr>"
    using assms by (rule handle_nonempty)
  have c: "gateway_contract g frame (request_text buf) ?res"
    by (rule contract_all)
  show ?thesis
    unfolding h using c [unfolded gateway_contract_def Let_def]
    by (simp only: http_result.simps) blast
qed

lemma route_request_voltage_1234:
  "request_text req_voltage_1234 = req_voltage_1234 \<and>
   is_voltage req_voltage_1234 \<and> find_body req_voltage_1234 = Some ''12.34''"
proof -
  have t: "request_text req_voltage_1234 = req_voltage_1234"
    by (rule request_text_plain) (simp_all add: req_voltage_1234_def CRLF_def MAX_REQUEST_SIZE_def)
  have v: "is_voltage req_voltage_1234"
    by (simp add: is_voltage_def strncmp_eq_def req_voltage_1234_def)
  have b: "find_body req_voltage_1234 = Some ''12.34''"
    by (simp add: req_voltage_1234_def CRLF_def)
  from t v b show ?thesis by blast
qed

theorem gateway_never_5xx_witness:
  \<open>0 < length req_voltage_1234 \<and>
   is_post (request_text req_voltage_1234) \<and>
   transactions (handle_request (Some (\<lambda>f. (False, f))) empty_frame (Some req_voltage_1234)) =
     [create_set_param_frame empty_frame ''voltage'' ''12.34''] \<and>
   writes (handle_request (Some (\<lambda>f. (False, f))) empty_frame (Some req_voltage_1234)) =
     [Text (http_json_header @ ''{"success":false}'')] \<and>
   status_code (handle_request (Some (\<lambda>f. (False, f))) empty_frame (Some req_voltage_1234)) =
     Some ''200'' \<and>
   0 < length req_unknown \<and> \<not> routed (request_text req_unknown) \<and>
   status_code (handle_request (Some (\<lambda>f. (False, f))) empty_frame (Some req_unknown)) =
     Some ''404'' \<and>
   transactions (handle_request (Some (\<lambda>f. (False, f))) empty_frame (Some req_unknown)) = []\<close>
proof -
  let ?c = "\<lambda>f :: frame_t. (False, f)"
  let ?fr = "create_set_param_frame empty_frame ''voltage'' ''12.34''"
  note v = route_request_voltage_1234
  have a: "0 < length req_voltage_1234" by (simp add: req_voltage_1234_def)
  have p: "is_post (request_text req_voltage_1234)" using v by (simp add: is_post_def)
  have rt: "routed (request_text req_voltage_1234)" using v by (simp add: routed_def)
  have tx: "transactions (handle_request (Some ?c) empty_frame (Some req_voltage_1234)) = [?fr]"
    using handle_nonempty [OF a, of "Some ?c" empty_frame] v
      route_voltage [of req_voltage_1234 "Some ?c" empty_frame]
    by (simp add: is_voltage_def)
  have nf: "\<not> fst (?c ?fr)" by simp
  have a2: "0 < length req_unknown" by (simp add: req_unknown_def)
  have t2: "request_text req_unknown = req_unknown"
    by (rule request_text_plain) (simp_all add: req_unknown_def CRLF_def MAX_REQUEST_SIZE_def)
  have nr: "\<not> routed (request_text req_unknown)"
    unfolding t2
    by (simp add: routed_def is_options_def is_index_def is_status_def is_voltage_def
        is_current_def is_output_def strncmp_eq_def req_unknown_def)
  from gateway_never_5xx [OF a, of "Some ?c" empty_frame ?c ?fr] p tx nf rt
  have 1: \<open>writes (handle_request (Some ?c) empty_frame (Some req_voltage_1234)) =
     [Text (http_json_header @ ''{"success":false}'')] \<and>
     status_code (handle_request (Some ?c) empty_frame (Some req_voltage_1234)) = Some ''200''\<close>
    by blast
  from gateway_never_5xx [OF a2, of "Some ?c" empty_frame ?c ?fr] nr
  have 2: "status_code (handle_request (Some ?c) empty_frame (Some req_unknown)) = Some ''404''
     \<and> transactions (handle_request (Some ?c) empty_frame (Some req_unknown)) = []"
    by blast
  from a p tx 1 a2 nr 2 show ?thesis by blast
qed

text \<open>
  The fields \<open>parse_query_response\<close> prints, by payload offset: \<open>v_in\<close> from bytes 2
  and 3, \<open>v_out\<close> from bytes 4 and 5, \<open>i_out\<close> from bytes 6 and 7, \<open>output_enabled\<close> from
  byte 8.
\<close>

lemma byte_at_unpack_pos: "byte_at (f\<lparr>unpack_pos := k\<rparr>) i = byte_at f i"
  by (simp add: byte_at_def)

lemma parse_query_ok:
  assumes "byte_at f 0 = cmd_code cmd_response OR cmd_code cmd_query" "byte_at f 1 \<noteq> 0"
  shows \<open>parse_query_response f n =
     (True, snprintf n
        (''{"v_in":'' @
           printf_f 2 (f32_div1000 (unat (push_bit 8 (ucast (byte_at f 2)) OR ucast (byte_at f 3) :: 16 word))) @
         '',"v_out":'' @
           printf_f 2 (f32_div1000 (unat (push_bit 8 (ucast (byte_at f 4)) OR ucast (byte_at f 5) :: 16 word))) @
         '',"i_out":'' @
           printf_f 3 (f32_div1000 (unat (push_bit 8 (ucast (byte_at f 6)) OR ucast (byte_at f 7) :: 16 word))) @
         '',"output_enabled":'' @ (if byte_at f 8 \<noteq> 0 then ''true'' else ''false'') @ ''}''))\<close>
  using assms
  by (simp add: parse_query_response_def start_frame_unpacking_def unpack8_def unpack16_def
      byte_at_unpack_pos Let_def eval_nat_numeral)

lemma fixed_digits_2: "fixed_digits 2 n = [digit_char (n div 10 mod 10), digit_char (n mod 10)]"
  by (simp add: numeral_2_eq_2)

lemma fixed_digits_3:
  "fixed_digits 3 n =
     [digit_char (n div 10 div 10 mod 10), digit_char (n div 10 mod 10), digit_char (n mod 10)]"
  by (simp add: numeral_3_eq_3)

lemma f32_24000: "f32_div1000 24000 = (12582912, 19)"
  by (simp add: f32_div1000_def f32_exponent_def f32_norm.simps round_half_even_def Let_def)

lemma f32_5000: "f32_div1000 5000 = (10485760, 21)"
  by (simp add: f32_div1000_def f32_exponent_def f32_norm.simps round_half_even_def Let_def)

lemma f32_1200: "f32_div1000 1200 = (10066330, 23)"
  by (simp add: f32_div1000_def f32_exponent_def f32_norm.simps round_half_even_def Let_def)

lemma printf_24000: "printf_f 2 (f32_div1000 24000) = ''24.00''"
  by (simp add: f32_24000 printf_f_def round_half_even_def fixed_digits_2
      show_nat.simps digit_char_def Let_def)

lemma printf_5000_2: "printf_f 2 (f32_div1000 5000) = ''5.00''"
  by (simp add: f32_5000 printf_f_def round_half_even_def fixed_digits_2
      show_nat.simps digit_char_def Let_def)

lemma printf_5000_3: "printf_f 3 (f32_div1000 5000) = ''5.000''"
  by (simp add: f32_5000 printf_f_def round_half_even_def fixed_digits_3
      show_nat.simps digit_char_def Let_def)

lemma printf_1200_3: "printf_f 3 (f32_div1000 1200) = ''1.200''"
  by (simp add: f32_1200 printf_f_def round_half_even_def fixed_digits_3
      show_nat.simps digit_char_def Let_def)

lemma low_bytes:
  "(24000::8 word) = 192" "(5000::8 word) = 136" "(1200::8 word) = 176" "(3000::8 word) = 184"
  by (simp_all add: word_uint_eq_iff)

lemma scenario_response_is_build:
  "scenario_response = build_frame empty_frame scenario_payload"
  unfolding scenario_response_def query_response_is_build scenario_payload_def
  by (simp add: low_bytes)

lemma length_scenario_payload: "length scenario_payload = 13"
  by (simp add: scenario_payload_def)

lemma scenario_comm_result:
  "scenario_comm f =
     (True, f\<lparr>buffer := scenario_payload @ drop (length scenario_payload) (buffer f),
              flength := length scenario_payload, unpack_pos := 0\<rparr>)"
proof -
  have fits: "length (wire_form scenario_payload) \<le> MAX_FRAME_LENGTH"
    by (rule short_payload_fits) (simp add: scenario_payload_def)
  have "take (flength scenario_response) (buffer scenario_response) = wire_form scenario_payload"
    using build_frame_fits [OF length_empty_frame fits]
    by (simp add: wire_bytes_def scenario_response_is_build)
  from extract_wire_form [OF fits this, of f]
  show ?thesis by (simp only: scenario_comm_def sum.case)
qed

lemma scenario_bytes:
  assumes "buffer g = scenario_payload @ rest"
  shows "byte_at g 0 = 0x84" "byte_at g 1 = 1" "byte_at g 2 = 0x5d" "byte_at g 3 = 0xc0"
    "byte_at g 4 = 0x13" "byte_at g 5 = 0x88" "byte_at g 6 = 0x13" "byte_at g 7 = 0x88"
    "byte_at g 8 = 0x04"
  using assms by (simp_all add: byte_at_def scenario_payload_def)

lemma be16_values:
  "(push_bit 8 (ucast (0x5d :: 8 word)) OR ucast (0xc0 :: 8 word) :: 16 word) = 24000"
  "(push_bit 8 (ucast (0x13 :: 8 word)) OR ucast (0x88 :: 8 word) :: 16 word) = 5000"
  by simp_all

lemma scenario_parse:
  assumes "buffer g = scenario_payload @ rest"
  shows \<open>parse_query_response g 256 =
     (True, ''{"v_in":24.00,"v_out":5.00,"i_out":5.000,"output_enabled":true}'')\<close>
proof -
  note b = scenario_bytes [OF assms]
  have "byte_at g 0 = cmd_code cmd_response OR cmd_code cmd_query" using b(1) by simp
  moreover have "byte_at g 1 \<noteq> 0" using b(2) by simp
  ultimately show ?thesis
    by (simp add: parse_query_ok b(3-9) be16_values printf_24000 printf_5000_2 printf_5000_3
        snprintf_def)
qed

text \<open>
  Claim C3, as the specification states it, fails.  The response with the six fields
  \<open>v_in = 24000\<close>, \<open>v_out_setting = 5000\<close>, \<open>v_out = 5000\<close>, \<open>i_out = 1200\<close>,
  \<open>i_limit = 3000\<close>, \<open>enabled = 1\<close> is the query response of protocol.h, with
  \<open>v_out_setting\<close> at bytes 4 and 5, \<open>v_out\<close> at bytes 6 and 7, \<open>i_out\<close> at bytes 8 and 9.
  \<open>parse_query_response\<close> reads another layout: it prints bytes 4 and 5 as \<open>v_out\<close>,
  bytes 6 and 7 as \<open>i_out\<close> and takes byte 8 as the enable flag.  On the six-field
  response the answer has \<open>i_out\<close> printed as 5.000, not 1.200.
\<close>

theorem status_scenario_reports_v_out_as_i_out:
  \<open>handle_request (Some scenario_comm) empty_frame (Some req_status) =
     \<lparr>writes = [Text (http_json_header @
         ''{"v_in":24.00,"v_out":5.00,"i_out":5.000,"output_enabled":true}'')],
      transactions = [create_query_frame empty_frame], closed = True\<rparr>
   \<and> extracted_payload empty_frame (buffer scenario_response) (flength scenario_response)
       = Inr [0x84, 0x01, 0x5d, 0xc0, 0x13, 0x88, 0x13, 0x88, 0x04, 0xb0, 0x0b, 0xb8, 0x01]
   \<and> writes (handle_request (Some scenario_comm) empty_frame (Some req_status)) \<noteq>
       [Text (http_json_header @
         ''{"v_in":24.00,"v_out":5.00,"i_out":1.200,"output_enabled":true}'')]\<close>
proof -
  let ?q = "create_query_frame empty_frame"
  let ?g = "?q\<lparr>buffer := scenario_payload @ drop (length scenario_payload) (buffer ?q),
              flength := length scenario_payload, unpack_pos := 0\<rparr>"
  have t: "request_text req_status = req_status"
    by (rule request_text_plain) (simp_all add: req_status_def CRLF_def MAX_REQUEST_SIZE_def)
  have a: "0 < length req_status" by (simp add: req_status_def)
  have st: "strncmp_eq (request_text req_status) ''GET /api/status'' 15"
    unfolding t by (simp add: strncmp_eq_def req_status_def)
  have c: "scenario_comm ?q = (True, ?g)" by (rule scenario_comm_result)
  have p: \<open>parse_query_response ?g 256 =
     (True, ''{"v_in":24.00,"v_out":5.00,"i_out":5.000,"output_enabled":true}'')\<close>
    by (rule scenario_parse [of _ "drop (length scenario_payload) (buffer ?q)"]) simp
  let ?j = \<open>''{"v_in":24.00,"v_out":5.00,"i_out":5.000,"output_enabled":true}''\<close>
  have sn: "snprintf MAX_RESPONSE_SIZE (http_json_header @ ?j) = http_json_header @ ?j"
    by (rule snprintf_short) (simp add: length_json_header MAX_RESPONSE_SIZE_def)
  have r: "route_request (Some scenario_comm) empty_frame (request_text req_status) =
      ([Text (http_json_header @ ?j)], [?q])"
    using route_status [OF st, of "Some scenario_comm" empty_frame] c p sn by simp
  have h: "handle_request (Some scenario_comm) empty_frame (Some req_status) =
      \<lparr>writes = [Text (http_json_header @ ?j)], transactions = [?q], closed = True\<rparr>"
    using handle_nonempty [OF a, of "Some scenario_comm" empty_frame] r by simp
  have fits: "length (wire_form scenario_payload) \<le> MAX_FRAME_LENGTH"
    by (rule short_payload_fits) (simp add: scenario_payload_def)
  have e: "extracted_payload empty_frame (buffer scenario_response) (flength scenario_response)
       = Inr scenario_payload"
    unfolding scenario_response_is_build
    by (rule extract_build_frame [OF length_empty_frame fits])
  show ?thesis
    unfolding h using e by (simp add: scenario_payload_def)
qed

lemma payload_prefix_byte:
  assumes "payload_of f = xs @ rest" "i < length xs"
  shows "byte_at f i = xs ! i"
proof -
  have "buffer f = (xs @ rest) @ drop (flength f) (buffer f)"
    using assms(1) append_take_drop_id [of "flength f" "buffer f"] by (simp add: payload_of_def)
  then have b: "buffer f = xs @ (rest @ drop (flength f) (buffer f))" by simp
  have "i < length (buffer f)" using assms(2) by (subst b) simp
  moreover have "buffer f ! i = xs ! i" using assms(2) by (subst b) (simp add: nth_append)
  ultimately show ?thesis by (simp add: byte_at_def)
qed

lemma word16_bytes_join:
  "push_bit 8 (ucast (ucast (drop_bit 8 v) :: 8 word)) OR ucast (ucast v :: 8 word) = (v :: 16 word)"
  using crc_bytes_join [of v] by (simp add: crc_hi_def crc_lo_def)

lemma parse_gateway_layout:
  assumes "payload_of resp =
      [cmd_code cmd_response OR cmd_code cmd_query, st,
       ucast (drop_bit 8 v_in), ucast v_in, ucast (drop_bit 8 v_out), ucast v_out,
       ucast (drop_bit 8 i_out), ucast i_out, en] @ rest"
    and "st \<noteq> 0"
  shows \<open>parse_query_response resp n =
     (True, snprintf n
        (''{"v_in":'' @ printf_f 2 (f32_div1000 (unat (v_in :: 16 word))) @
         '',"v_out":'' @ printf_f 2 (f32_div1000 (unat (v_out :: 16 word))) @
         '',"i_out":'' @ printf_f 3 (f32_div1000 (unat (i_out :: 16 word))) @
         '',"output_enabled":'' @ (if en \<noteq> 0 then ''true'' else ''false'') @ ''}''))\<close>
proof -
  note p = payload_prefix_byte [OF assms(1)]
  have b: "byte_at resp 0 = cmd_code cmd_response OR cmd_code cmd_query" "byte_at resp 1 = st"
    "byte_at resp 2 = ucast (drop_bit 8 v_in)" "byte_at resp 3 = ucast v_in"
    "byte_at resp 4 = ucast (drop_bit 8 v_out)" "byte_at resp 5 = ucast v_out"
    "byte_at resp 6 = ucast (drop_bit 8 i_out)" "byte_at resp 7 = ucast i_out"
    "byte_at resp 8 = en"
    using p [of 0] p [of 1] p [of 2] p [of 3] p [of 4] p [of 5] p [of 6] p [of 7] p [of 8]
    by simp_all
  have "byte_at resp 1 \<noteq> 0" using b(2) assms(2) by simp
  from parse_query_ok [OF b(1) this, of n]
  show ?thesis by (simp only: b(3-9) word16_bytes_join)
qed

text \<open>
  Claim C3, amended.  A GET /api/status request, when the callback succeeds and leaves
  a response in the layout the gateway reads (tag \<open>cmd_response | cmd_query\<close>, a
  non-zero status byte, then \<open>v_in = 24000\<close>, \<open>v_out = 5000\<close> and \<open>i_out = 1200\<close> as
  big-endian 16-bit fields and \<open>output_enabled = 1\<close>, whatever follows), is answered
  with HTTP 200 and the JSON body
  \<^verbatim>\<open>{"v_in":24.00,"v_out":5.00,"i_out":1.200,"output_enabled":true}\<close>.
\<close>

theorem status_scenario_on_gateway_layout:
  assumes "0 < length buf"
    and "strncmp_eq (request_text buf) ''GET /api/status'' 15"
    and "comm (create_query_frame frame) = (True, resp)"
    and "payload_of resp =
      [cmd_code cmd_response OR cmd_code cmd_query, st,
       ucast (drop_bit 8 v_in), ucast v_in, ucast (drop_bit 8 v_out), ucast v_out,
       ucast (drop_bit 8 i_out), ucast i_out, en] @ rest"
    and "st \<noteq> 0"
    and "v_in = (24000 :: 16 word)" and "v_out = (5000 :: 16 word)" and "i_out = (1200 :: 16 word)"
    and "en = 1"
  shows \<open>handle_request (Some comm) frame (Some buf) =
           \<lparr>writes = [Text (http_json_header @
               ''{"v_in":24.00,"v_out":5.00,"i_out":1.200,"output_enabled":true}'')],
            transactions = [create_query_frame frame], closed = True\<rparr>
         \<and> status_code (handle_request (Some comm) frame (Some buf)) = Some ''200''\<close>
proof -
  let ?j = \<open>''{"v_in":24.00,"v_out":5.00,"i_out":1.200,"output_enabled":true}''\<close>
  have p: "parse_query_response resp 256 = (True, ?j)"
    using parse_gateway_layout [OF assms(4,5), of 256]
    by (simp add: assms(6-9) printf_24000 printf_5000_2 printf_1200_3 snprintf_def)
  have sn: "snprintf MAX_RESPONSE_SIZE (http_json_header @ ?j) = http_json_header @ ?j"
    by (rule snprintf_short) (simp add: length_json_header MAX_RESPONSE_SIZE_def)
  have r: "route_request (Some comm) frame (request_text buf) =
      ([Text (http_json_header @ ?j)], [create_query_frame frame])"
    using route_status [OF assms(2), of "Some comm" frame] assms(3) p sn by simp
  have h: "handle_request (Some comm) frame (Some buf) =
      \<lparr>writes = [Text (http_json_header @ ?j)], transactions = [create_query_frame frame],
       closed = True\<rparr>"
    using handle_nonempty [OF assms(1), of "Some comm" frame] r by simp
  have s: "take 3 (drop 9 (http_json_header @ ?j)) = ''200''"
    by (rule header_status_200)
  show ?thesis unfolding h status_code_def using s by simp
qed

theorem status_scenario_on_gateway_layout_witness:
  \<open>0 < length req_status \<and>
   strncmp_eq (request_text req_status) ''GET /api/status'' 15 \<and>
   payload_of gateway_layout_frame =
     [0x84, 0x01, 0x5d, 0xc0, 0x13, 0x88, 0x04, 0xb0, 0x01] @ [0, 0, 0, 0, 0] \<and>
   handle_request (Some (\<lambda>f. (True, gateway_layout_frame))) empty_frame (Some req_status) =
     \<lparr>writes = [Text (http_json_header @
         ''{"v_in":24.00,"v_out":5.00,"i_out":1.200,"output_enabled":true}'')],
      transactions = [create_query_frame empty_frame], closed = True\<rparr>\<close>
proof -
  have t: "request_text req_status = req_status"
    by (rule request_text_plain) (simp_all add: req_status_def CRLF_def MAX_REQUEST_SIZE_def)
  have a: "0 < length req_status" by (simp add: req_status_def)
  have b: "strncmp_eq (request_text req_status) ''GET /api/status'' 15"
    unfolding t by (simp add: strncmp_eq_def req_status_def)
  have c: "payload_of gateway_layout_frame =
     [0x84, 0x01, 0x5d, 0xc0, 0x13, 0x88, 0x04, 0xb0, 0x01] @ [0, 0, 0, 0, 0]"
    by (simp add: payload_of_def gateway_layout_frame_def)
  have c': "payload_of gateway_layout_frame =
      [cmd_code cmd_response OR cmd_code cmd_query, 1,
       ucast (drop_bit 8 (24000 :: 16 word)), ucast (24000 :: 16 word),
       ucast (drop_bit 8 (5000 :: 16 word)), ucast (5000 :: 16 word),
       ucast (drop_bit 8 (1200 :: 16 word)), ucast (1200 :: 16 word), 1] @ [0, 0, 0, 0, 0]"
    unfolding c by (simp add: low_bytes)
  have d: "(\<lambda>f. (True, gateway_layout_frame)) (create_query_frame empty_frame)
      = (True, gateway_layout_frame)"
    by simp
  have e: "(1 :: 8 word) \<noteq> 0" by simp
  from status_scenario_on_gateway_layout [OF a b d c' e refl refl refl refl] a b c
  show ?thesis by blast
qed

end
